theory Spec2Isabelle
  imports Main "HOL-Library.Word"
begin

section \<open>Values shared by the hub handlers and the log scanner\<close>

type_synonym byte = "8 word"
type_synonym bytes = "byte list"

text \<open>
  A Go \<open>error\<close> value. \<open>StatusErr c m\<close> is an error that carries a gRPC status with
  code \<open>c\<close> (a \<open>uint32\<close>) and message \<open>m\<close>; \<open>LibErr m\<close> is an error of a library that
  carries none (\<open>ioutil.ReadAll\<close>, \<open>json.Unmarshal\<close>, \<open>strconv.ParseInt\<close>, ...);
  \<open>Errorf f args\<close> is \<open>fmt.Errorf(f, args...)\<close> (and \<open>errors.New(f)\<close> with no
  arguments): the format string is kept as the source writes it, together with the
  arguments, and is not rendered. \<open>ArgVal x\<close> is an argument printed with \<open>%v\<close>
  that is a structure; it is named by the expression \<open>x\<close> of the source.
\<close>

datatype error =
    StatusErr nat string
  | LibErr string
  | Errorf string "fmtarg list"
and fmtarg =
    ArgInt int
  | ArgStr string
  | ArgErr error
  | ArgVal string

text \<open>
  The messages of the backend (package \<open>trillian\<close>), with the fields the code reads or
  writes. A pointer that may be nil is an \<open>option\<close>. Fields of the same name in
  different messages carry a prefix.
\<close>

record LogLeaf =
  LeafValue :: bytes
  LeafIdentityHash :: bytes
  LeafIndex :: int

record SignedLogRoot =
  TreeSize :: int
  LogRoot :: bytes
  LogRootSignature :: bytes

record QueueLeavesRequest =
  ql_LogId :: int
  ql_Leaves :: "LogLeaf list"

record QueueLeavesResponse =
  QueuedLeaves :: "LogLeaf option list"

record GetLatestSignedLogRootRequest =
  slr_LogId :: int

record GetLatestSignedLogRootResponse =
  slr_SignedLogRoot :: "SignedLogRoot option"

record GetConsistencyProofRequest =
  cp_LogId :: int
  FirstTreeSize :: int
  SecondTreeSize :: int

text \<open>\<open>Hashes\<close> is a slice of byte slices; \<open>None\<close> is the nil slice.\<close>

record Proof =
  proof_LeafIndex :: int
  Hashes :: "bytes list option"

record GetConsistencyProofResponse =
  cp_Proof :: "Proof option"
  cp_SignedLogRoot :: "SignedLogRoot option"

record GetInclusionProofByHashRequest =
  ip_LogId :: int
  LeafHash :: bytes
  ip_TreeSize :: int
  OrderBySequence :: bool

record GetInclusionProofByHashResponse =
  ip_Proof :: "Proof option list"
  ip_SignedLogRoot :: "SignedLogRoot option"

record GetLeavesByRangeRequest =
  lbr_LogId :: int
  StartIndex :: int
  Count :: int

record ServerSkew =
  TreeSizeSet :: bool
  skew_TreeSize :: int

record GetLeavesByRangeResponse =
  Leaves :: "LogLeaf option list"
  lbr_SignedLogRoot :: "SignedLogRoot option"
  Skew :: "ServerSkew option"

text \<open>
  The generated getters of \<open>ServerSkew\<close> accept a nil receiver and answer the zero
  value for it.
\<close>

definition GetTreeSizeSet :: "ServerSkew option \<Rightarrow> bool" where
  "GetTreeSizeSet k = (case k of None \<Rightarrow> False | Some x \<Rightarrow> TreeSizeSet x)"

definition GetTreeSize :: "ServerSkew option \<Rightarrow> int" where
  "GetTreeSize k = (case k of None \<Rightarrow> 0 | Some x \<Rightarrow> skew_TreeSize x)"

text \<open>
  \<open>trillian.TrillianLogClient\<close>, the backend as both programs reach it. The backend is
  a collaborator with a state of its own (type \<open>'b\<close>): a call takes the state and the
  request and returns either an error or a response pointer, which may be nil
  (\<open>None\<close>), together with the state after the call. The context argument, which
  carries the deadline, is left out.
\<close>

record 'b TrillianLogClient =
  QueueLeaves ::
    "'b \<Rightarrow> QueueLeavesRequest \<Rightarrow> (error + QueueLeavesResponse option) \<times> 'b"
  GetLatestSignedLogRoot ::
    "'b \<Rightarrow> GetLatestSignedLogRootRequest
      \<Rightarrow> (error + GetLatestSignedLogRootResponse option) \<times> 'b"
  GetConsistencyProof ::
    "'b \<Rightarrow> GetConsistencyProofRequest
      \<Rightarrow> (error + GetConsistencyProofResponse option) \<times> 'b"
  GetInclusionProofByHash ::
    "'b \<Rightarrow> GetInclusionProofByHashRequest
      \<Rightarrow> (error + GetInclusionProofByHashResponse option) \<times> 'b"
  GetLeavesByRange ::
    "'b \<Rightarrow> GetLeavesByRangeRequest \<Rightarrow> (error + GetLeavesByRangeResponse option) \<times> 'b"

section \<open>The log scanner (registers/trillian\_client/client.go)\<close>

text \<open>
  \<open>LogScanner\<close> is the consumer: \<open>Leaf(n, leaf)\<close> returns an error or nil. The
  consumer has a state too (type \<open>'c\<close>), passed in and returned.
\<close>

type_synonym 'c LogScanner = "'c \<Rightarrow> int \<Rightarrow> LogLeaf \<Rightarrow> error option \<times> 'c"

definition CHUNK :: int where
  "CHUNK = 10"

text \<open>
  How a run of \<open>Scan\<close> ends: it returns (nil or the consumer's error), it stops the
  process through \<open>log.Fatalf\<close>, or it dereferences a nil pointer.
\<close>

datatype fatal =
    CantGetLogRoot error
  | CantGetLeaf int error
  | NoProgress int
  | CantGetLeafNoError int

datatype scan_result = Return "error option" | Fatalf fatal | NilDeref

text \<open>
  The state of a run: the backend, the consumer, and the list of the consumer's
  invocations so far, oldest first (the list is not in the source: it records what the
  consumer was called with).
\<close>

record ('b, 'c) scan_state =
  backend :: 'b
  scanner :: 'c
  invoked :: "(int \<times> LogLeaf) list"

text \<open>
  The inner loop \<open>for m := 0; m < len(r.Leaves) && n < ts; n++\<close>, by recursion on the
  leaves that are left. It answers how the scan ends there, if it does (\<open>None\<close>: the
  loop came to its end), with the cursor \<open>n\<close>. The cursor is an \<open>int64\<close>; it is
  incremented only while it is below \<open>ts\<close>, so the increment never wraps.
\<close>

fun leaves_loop ::
  "'c LogScanner \<Rightarrow> LogLeaf option list \<Rightarrow> int \<Rightarrow> int \<Rightarrow> ('b, 'c) scan_state
    \<Rightarrow> scan_result option \<times> int \<times> ('b, 'c) scan_state" where
  "leaves_loop Leaf [] n ts st = (None, n, st)"
| "leaves_loop Leaf (l # ls) n ts st =
    (if n < ts then
       (case l of
          None \<Rightarrow> (Some (Fatalf (CantGetLeafNoError n)), n, st)
        | Some leaf \<Rightarrow>
            (case Leaf (scanner st) n leaf of
               (Some e, c) \<Rightarrow>
                 (Some (Return (Some e)), n,
                  st\<lparr>scanner := c, invoked := invoked st @ [(n, leaf)]\<rparr>)
             | (None, c) \<Rightarrow>
                 leaves_loop Leaf ls (n + 1) ts
                   (st\<lparr>scanner := c, invoked := invoked st @ [(n, leaf)]\<rparr>)))
     else (None, n, st))"

text \<open>The tree size the scan believes in after a response: a skew signal replaces it.\<close>

definition adopt :: "int \<Rightarrow> GetLeavesByRangeResponse \<Rightarrow> int" where
  "adopt ts r = (if GetTreeSizeSet (Skew r) then GetTreeSize (Skew r) else ts)"

text \<open>
  The outer loop \<open>for n := int64(0); n < ts; { ... }\<close>. A backend that keeps raising
  the tree size keeps the loop running for ever; not returning is the value \<open>None\<close>.
  The result carries the cursor \<open>n\<close> and the tree size \<open>ts\<close> at the end.
\<close>

partial_function (option) scan_loop ::
  "'b TrillianLogClient \<Rightarrow> 'c LogScanner \<Rightarrow> int \<Rightarrow> int \<Rightarrow> int \<Rightarrow> ('b, 'c) scan_state
    \<Rightarrow> (scan_result \<times> int \<times> int \<times> ('b, 'c) scan_state) option" where
  "scan_loop tc Leaf logID n ts st =
    (if n < ts then
       (case GetLeavesByRange tc (backend st)
               \<lparr>lbr_LogId = logID, StartIndex = n, Count = CHUNK\<rparr> of
          (Inl e, b) \<Rightarrow> Some (Fatalf (CantGetLeaf n e), n, ts, st\<lparr>backend := b\<rparr>)
        | (Inr None, b) \<Rightarrow> Some (NilDeref, n, ts, st\<lparr>backend := b\<rparr>)
        | (Inr (Some r), b) \<Rightarrow>
            (if n < adopt ts r \<and> length (Leaves r) = 0
             then Some (Fatalf (NoProgress n), n, adopt ts r, st\<lparr>backend := b\<rparr>)
             else
               (case leaves_loop Leaf (Leaves r) n (adopt ts r) (st\<lparr>backend := b\<rparr>) of
                  (Some res, n', st') \<Rightarrow> Some (res, n', adopt ts r, st')
                | (None, n', st') \<Rightarrow> scan_loop tc Leaf logID n' (adopt ts r) st')))
     else Some (Return None, n, ts, st))"

declare scan_loop.simps [code]

definition Scan ::
  "'b TrillianLogClient \<Rightarrow> int \<Rightarrow> 'c LogScanner \<Rightarrow> 'b \<Rightarrow> 'c
    \<Rightarrow> (scan_result \<times> ('b, 'c) scan_state) option" where
  "Scan tc logID Leaf b c =
    (case GetLatestSignedLogRoot tc b \<lparr>slr_LogId = logID\<rparr> of
       (Inl e, b') \<Rightarrow>
         Some (Fatalf (CantGetLogRoot e), \<lparr>backend = b', scanner = c, invoked = []\<rparr>)
     | (Inr None, b') \<Rightarrow> Some (NilDeref, \<lparr>backend = b', scanner = c, invoked = []\<rparr>)
     | (Inr (Some lr), b') \<Rightarrow>
         (case slr_SignedLogRoot lr of
            None \<Rightarrow> Some (NilDeref, \<lparr>backend = b', scanner = c, invoked = []\<rparr>)
          | Some root \<Rightarrow>
              map_option (\<lambda>(res, n, ts, st). (res, st))
                (scan_loop tc Leaf logID 0 (TreeSize root)
                   \<lparr>backend = b', scanner = c, invoked = []\<rparr>)))"

section \<open>The hub handlers (gossip/hub/handlers.go)\<close>

subsection \<open>Integers, status codes and parameter names\<close>

text \<open>
  An \<open>int64\<close> is an \<open>int\<close> in the range of \<open>in_int64\<close>; Go's signed arithmetic wraps
  around, which \<open>wrap64\<close> writes out.
\<close>

definition in_int64 :: "int \<Rightarrow> bool" where
  "in_int64 x = (- (2 ^ 63) \<le> x \<and> x < 2 ^ 63)"

definition wrap64 :: "int \<Rightarrow> int" where
  "wrap64 x = (x + 2 ^ 63) mod 2 ^ 64 - 2 ^ 63"

definition add64 :: "int \<Rightarrow> int \<Rightarrow> int" where
  "add64 a b = wrap64 (a + b)"

definition sub64 :: "int \<Rightarrow> int \<Rightarrow> int" where
  "sub64 a b = wrap64 (a - b)"

text \<open>
  \<open>strconv.ParseInt(s, 10, 64)\<close> of the Go standard library: an optional sign, then
  one or more decimal digits; a syntax error otherwise, a range error when the value is
  not an \<open>int64\<close>.
\<close>

definition digit_of :: "char \<Rightarrow> nat option" where
  "digit_of c =
    (let k = (of_char c :: nat) in if 48 \<le> k \<and> k \<le> 57 then Some (k - 48) else None)"

fun digits_val :: "nat \<Rightarrow> string \<Rightarrow> nat option" where
  "digits_val acc [] = Some acc"
| "digits_val acc (c # cs) =
    (case digit_of c of None \<Rightarrow> None | Some d \<Rightarrow> digits_val (acc * 10 + d) cs)"

definition ParseInt :: "string \<Rightarrow> error + int" where
  "ParseInt s =
    (case s of
       [] \<Rightarrow> Inl (LibErr ''strconv.ParseInt: invalid syntax'')
     | c # cs \<Rightarrow>
         (let ds = (if c = CHR ''+'' \<or> c = CHR ''-'' then cs else s) in
          if ds = [] then Inl (LibErr ''strconv.ParseInt: invalid syntax'')
          else
            (case digits_val 0 ds of
               None \<Rightarrow> Inl (LibErr ''strconv.ParseInt: invalid syntax'')
             | Some v \<Rightarrow>
                 (let i = (if c = CHR ''-'' then - int v else int v) in
                  if in_int64 i then Inr i
                  else Inl (LibErr ''strconv.ParseInt: value out of range'')))))"

text \<open>The HTTP status codes of \<open>net/http\<close> that the handlers use.\<close>

definition StatusOK :: int where "StatusOK = 200"
definition StatusBadRequest :: int where "StatusBadRequest = 400"
definition StatusUnauthorized :: int where "StatusUnauthorized = 401"
definition StatusForbidden :: int where "StatusForbidden = 403"
definition StatusNotFound :: int where "StatusNotFound = 404"
definition StatusMethodNotAllowed :: int where "StatusMethodNotAllowed = 405"
definition StatusRequestTimeout :: int where "StatusRequestTimeout = 408"
definition StatusConflict :: int where "StatusConflict = 409"
definition StatusPreconditionFailed :: int where "StatusPreconditionFailed = 412"
definition StatusInternalServerError :: int where "StatusInternalServerError = 500"
definition StatusNotImplemented :: int where "StatusNotImplemented = 501"
definition StatusServiceUnavailable :: int where "StatusServiceUnavailable = 503"

text \<open>The gRPC status codes of \<open>google.golang.org/grpc/codes\<close> (a \<open>uint32\<close>).\<close>

definition codes_OK :: nat where "codes_OK = 0"
definition codes_Canceled :: nat where "codes_Canceled = 1"
definition codes_Unknown :: nat where "codes_Unknown = 2"
definition codes_InvalidArgument :: nat where "codes_InvalidArgument = 3"
definition codes_DeadlineExceeded :: nat where "codes_DeadlineExceeded = 4"
definition codes_NotFound :: nat where "codes_NotFound = 5"
definition codes_AlreadyExists :: nat where "codes_AlreadyExists = 6"
definition codes_PermissionDenied :: nat where "codes_PermissionDenied = 7"
definition codes_ResourceExhausted :: nat where "codes_ResourceExhausted = 8"
definition codes_FailedPrecondition :: nat where "codes_FailedPrecondition = 9"
definition codes_Aborted :: nat where "codes_Aborted = 10"
definition codes_OutOfRange :: nat where "codes_OutOfRange = 11"
definition codes_Unimplemented :: nat where "codes_Unimplemented = 12"
definition codes_Internal :: nat where "codes_Internal = 13"
definition codes_Unavailable :: nat where "codes_Unavailable = 14"
definition codes_DataLoss :: nat where "codes_DataLoss = 15"
definition codes_Unauthenticated :: nat where "codes_Unauthenticated = 16"

text \<open>
  \<open>status.FromError\<close>: the code of an error that carries a gRPC status, \<open>None\<close> for
  an error that carries none.
\<close>

fun FromError :: "error \<Rightarrow> nat option" where
  "FromError (StatusErr c m) = Some c"
| "FromError (LibErr m) = None"
| "FromError (Errorf f args) = None"

definition sha256_Size :: nat where
  "sha256_Size = 32"

definition defaultMaxGetEntries :: int where
  "defaultMaxGetEntries = 1000"

text \<open>
  Modelled from the spec: the names of the query parameters, constants of package
  \<open>api\<close>, which is not among the sources; section 6 of the spec gives them.
\<close>

definition GetSTHConsistencyFirst :: string where "GetSTHConsistencyFirst = ''first''"
definition GetSTHConsistencySecond :: string where "GetSTHConsistencySecond = ''second''"
definition GetProofByHashArg :: string where "GetProofByHashArg = ''hash''"
definition GetProofByHashSize :: string where "GetProofByHashSize = ''tree_size''"
definition GetEntriesStart :: string where "GetEntriesStart = ''start''"
definition GetEntriesEnd :: string where "GetEntriesEnd = ''end''"

subsection \<open>Requests, responses and the hub instance\<close>

text \<open>
  What the handlers read of an \<open>*http.Request\<close>: the method, the outcome of
  \<open>ParseForm\<close>, the form values (\<open>FormValue\<close> answers the empty string for a
  parameter that is absent) and the outcome of reading the body to its end.
\<close>

record Request =
  Method :: string
  ParseForm :: "error option"
  FormValue :: "string \<Rightarrow> string"
  Body :: "error + bytes"

text \<open>
  What reaches the client through an \<open>http.ResponseWriter\<close>: the header map, the status
  code of the response once it has been started, and what has been written to the body.
  \<open>ErrorText code e\<close> is the text that \<open>sendHTTPError\<close> formats from
  \<open>http.StatusText(code)\<close> and the error \<open>e\<close>. As in \<open>net/http\<close>, a
  \<open>WriteHeader\<close> on a response that has been started is ignored; on a response that
  has not been started it panics when the code is not one of 100..999 (\<open>None\<close>) and
  otherwise fixes the status code. A \<open>Write\<close> on a response that has not been started
  starts it with 200. A write on a broken connection returns an error and delivers
  nothing.
\<close>

datatype body_item = Data bytes | ErrorText int error

record ResponseWriter =
  headers :: "string \<rightharpoonup> string"
  started :: "int option"
  body :: "body_item list"
  broken :: bool

definition Header_Set :: "ResponseWriter \<Rightarrow> string \<Rightarrow> string \<Rightarrow> ResponseWriter" where
  "Header_Set w k v = w\<lparr>headers := (headers w)(k \<mapsto> v)\<rparr>"

definition WriteHeader :: "ResponseWriter \<Rightarrow> int \<Rightarrow> ResponseWriter option" where
  "WriteHeader w code =
    (if started w \<noteq> None then Some w
     else if code < 100 \<or> 999 < code then None
     else Some (w\<lparr>started := Some code\<rparr>))"

definition Write :: "ResponseWriter \<Rightarrow> body_item \<Rightarrow> error option \<times> ResponseWriter" where
  "Write w x =
    (if broken w then (Some (LibErr ''write: broken pipe''), w)
     else (None, w\<lparr>started := Some (case started w of None \<Rightarrow> 200 | Some code \<Rightarrow> code),
                   body := body w @ [x]\<rparr>))"

definition contentTypeHeader :: string where
  "contentTypeHeader = ''Content-Type''"

definition contentTypeJSON :: string where
  "contentTypeJSON = ''application/json''"

text \<open>
  \<open>sendHTTPError\<close> is \<open>http.Error\<close> with the formatted text: it sets the plain-text
  headers, writes the status code and then the text. It returns (\<open>True\<close>, with the
  writer as it leaves it) or ends in the panic of \<open>WriteHeader\<close> (\<open>False\<close>, with the
  writer as it is then: the headers set, nothing sent).
\<close>

definition sendHTTPError :: "ResponseWriter \<Rightarrow> int \<Rightarrow> error \<Rightarrow> bool \<times> ResponseWriter" where
  "sendHTTPError w statusCode e =
    (let w1 = Header_Set (Header_Set w ''Content-Type'' ''text/plain; charset=utf-8'')
                ''X-Content-Type-Options'' ''nosniff''
     in case WriteHeader w1 statusCode of
          None \<Rightarrow> (False, w1)
        | Some w2 \<Rightarrow> (True, snd (Write w2 (ErrorText statusCode e))))"

text \<open>
  Modelled from the spec: the request and response types of package \<open>api\<close>, which is
  not among the sources; sections 3 and 6 of the spec give their fields. A slice that
  may be nil is an \<open>option\<close> (\<open>None\<close> is nil, JSON \<open>null\<close>; \<open>Some []\<close> is the
  empty slice, JSON \<open>[]\<close>).
\<close>

record AddLogHeadRequest =
  req_SourceURL :: string
  req_HeadData :: bytes
  req_Signature :: bytes

record HubLeafEntry =
  SourceURL :: bytes
  HeadData :: bytes
  Signature :: bytes

datatype json_rsp =
    GetSTHConsistencyResponse "bytes list option"
  | GetProofByHashResponse int "bytes list option"
  | GetEntriesResponse "bytes list option"

definition emptyProof :: "bytes list option" where
  "emptyProof = Some []"

record logCryptoInfo =
  pubKeyData :: bytes
  pubKey :: bytes
  hasher :: nat

record InstanceOptions =
  MaxGetEntries :: int
  ErrorMapper :: "(error \<Rightarrow> int \<times> bool) option"

record 'b hubInfo =
  opts :: InstanceOptions
  hubPrefix :: string
  logID :: int
  urlPrefix :: string
  rpcClient :: "'b TrillianLogClient"
  cryptoMap :: "string \<rightharpoonup> logCryptoInfo"

text \<open>
  The library functions the handlers call and whose code is outside the repository:
  \<open>json.Unmarshal\<close> into an \<open>AddLogHeadRequest\<close>, \<open>json.Marshal\<close> of a response,
  \<open>tcrypto.Verify\<close>, \<open>sha256.Sum256\<close>, \<open>base64.StdEncoding.DecodeString\<close>, and
  \<open>tls.Marshal\<close> and \<open>tls.Unmarshal\<close> of a \<open>HubLeafEntry\<close> (the latter returns the
  bytes left over). The handlers take them as parameters. \<open>tls.Marshal\<close> takes an
  \<open>interface{}\<close> and looks at what it is handed; \<open>passed\<close> tells whether that is the
  entry itself or a pointer to it.
\<close>

datatype 'a passed = ByValue 'a | ByPointer 'a

record lib =
  json_Unmarshal :: "bytes \<Rightarrow> error + AddLogHeadRequest"
  json_Marshal :: "json_rsp \<Rightarrow> error + bytes"
  Verify :: "bytes \<Rightarrow> nat \<Rightarrow> bytes \<Rightarrow> bytes \<Rightarrow> error option"
  Sum256 :: "bytes \<Rightarrow> bytes"
  base64_DecodeString :: "string \<Rightarrow> error + bytes"
  tls_Marshal :: "HubLeafEntry passed \<Rightarrow> error + bytes"
  tls_Unmarshal :: "bytes \<Rightarrow> error + HubLeafEntry \<times> bytes"

text \<open>\<open>[]byte(s)\<close> of a string.\<close>

definition bytes_of :: "string \<Rightarrow> bytes" where
  "bytes_of s = map (\<lambda>c. of_nat (of_char c)) s"

text \<open>
  What a handler works on besides its arguments: the backend, the response writer, and
  the list of the requests sent to the backend so far, oldest first (the list is not in
  the source: it records the calls made through \<open>rpcClient\<close>).
\<close>

datatype rpc_call =
    QueueLeavesCall QueueLeavesRequest
  | GetLatestSignedLogRootCall GetLatestSignedLogRootRequest
  | GetConsistencyProofCall GetConsistencyProofRequest
  | GetInclusionProofByHashCall GetInclusionProofByHashRequest
  | GetLeavesByRangeCall GetLeavesByRangeRequest

record 'b hub_state =
  log_server :: 'b
  rpc_calls :: "rpc_call list"
  writer :: ResponseWriter

text \<open>
  How a handler ends: it returns a status and an error (or nil), or it panics on a nil
  pointer.
\<close>

datatype handler_result = Returns int "error option" | Panics

definition call_QueueLeaves ::
  "'b hubInfo \<Rightarrow> QueueLeavesRequest \<Rightarrow> 'b hub_state
    \<Rightarrow> (error + QueueLeavesResponse option) \<times> 'b hub_state" where
  "call_QueueLeaves c rq s =
    (case QueueLeaves (rpcClient c) (log_server s) rq of
       (r, b) \<Rightarrow> (r, s\<lparr>log_server := b, rpc_calls := rpc_calls s @ [QueueLeavesCall rq]\<rparr>))"

definition call_GetConsistencyProof ::
  "'b hubInfo \<Rightarrow> GetConsistencyProofRequest \<Rightarrow> 'b hub_state
    \<Rightarrow> (error + GetConsistencyProofResponse option) \<times> 'b hub_state" where
  "call_GetConsistencyProof c rq s =
    (case GetConsistencyProof (rpcClient c) (log_server s) rq of
       (r, b) \<Rightarrow>
         (r, s\<lparr>log_server := b, rpc_calls := rpc_calls s @ [GetConsistencyProofCall rq]\<rparr>))"

definition call_GetInclusionProofByHash ::
  "'b hubInfo \<Rightarrow> GetInclusionProofByHashRequest \<Rightarrow> 'b hub_state
    \<Rightarrow> (error + GetInclusionProofByHashResponse option) \<times> 'b hub_state" where
  "call_GetInclusionProofByHash c rq s =
    (case GetInclusionProofByHash (rpcClient c) (log_server s) rq of
       (r, b) \<Rightarrow>
         (r, s\<lparr>log_server := b, rpc_calls := rpc_calls s @ [GetInclusionProofByHashCall rq]\<rparr>))"

definition call_GetLeavesByRange ::
  "'b hubInfo \<Rightarrow> GetLeavesByRangeRequest \<Rightarrow> 'b hub_state
    \<Rightarrow> (error + GetLeavesByRangeResponse option) \<times> 'b hub_state" where
  "call_GetLeavesByRange c rq s =
    (case GetLeavesByRange (rpcClient c) (log_server s) rq of
       (r, b) \<Rightarrow>
         (r, s\<lparr>log_server := b, rpc_calls := rpc_calls s @ [GetLeavesByRangeCall rq]\<rparr>))"

subsection \<open>The handlers\<close>

text \<open>
  The handlers embedded here are \<open>addLogHead\<close>, \<open>getSTHConsistency\<close>,
  \<open>getProofByHash\<close> and \<open>getEntries\<close> with the functions they call, and the wrapper
  \<open>ServeHTTP\<close>. \<open>getSTH\<close>, \<open>getLogKeys\<close>, the construction of the hub and of its
  path map, the metrics and the log lines are left out.
\<close>

text \<open>
  \<open>toHTTPStatus\<close>: the override hook of the options first, then the fixed table on the
  code of the gRPC status.
\<close>

definition toHTTPStatus :: "'b hubInfo \<Rightarrow> error \<Rightarrow> int" where
  "toHTTPStatus h e =
    (case (case ErrorMapper (opts h) of
             None \<Rightarrow> None
           | Some f \<Rightarrow> (case f e of (status, ok) \<Rightarrow> if ok then Some status else None)) of
       Some status \<Rightarrow> status
     | None \<Rightarrow>
         (case FromError e of
            None \<Rightarrow> StatusInternalServerError
          | Some code \<Rightarrow>
              if code = codes_OK then StatusOK
              else if code = codes_Canceled \<or> code = codes_DeadlineExceeded
                then StatusRequestTimeout
              else if code = codes_InvalidArgument \<or> code = codes_OutOfRange
                      \<or> code = codes_AlreadyExists
                then StatusBadRequest
              else if code = codes_NotFound then StatusNotFound
              else if code = codes_PermissionDenied \<or> code = codes_ResourceExhausted
                then StatusForbidden
              else if code = codes_Unauthenticated then StatusUnauthorized
              else if code = codes_FailedPrecondition then StatusPreconditionFailed
              else if code = codes_Aborted then StatusConflict
              else if code = codes_Unimplemented then StatusNotImplemented
              else if code = codes_Unavailable then StatusServiceUnavailable
              else StatusInternalServerError))"

text \<open>\<open>checkHashSizes\<close>: the first node of a wrong length is reported, with its index.\<close>

fun checkHashSizes_from :: "nat \<Rightarrow> bytes list \<Rightarrow> error option" where
  "checkHashSizes_from i [] = None"
| "checkHashSizes_from i (node # path) =
    (if length node \<noteq> sha256_Size
     then Some (Errorf ''proof[%d] is length %d, want %d''
                  [ArgInt (int i), ArgInt (int (length node)), ArgInt (int sha256_Size)])
     else checkHashSizes_from (Suc i) path)"

definition checkHashSizes :: "bytes list option \<Rightarrow> error option" where
  "checkHashSizes path = checkHashSizes_from 0 (case path of None \<Rightarrow> [] | Some p \<Rightarrow> p)"

text \<open>
  The end that the three reading handlers share: marshal the response, set the content
  type, write. \<open>getSTHConsistency\<close> sets the header before it marshals, the other two
  after; \<open>header_first\<close> tells which.
\<close>

definition write_json ::
  "lib \<Rightarrow> bool \<Rightarrow> (error \<Rightarrow> error) \<Rightarrow> (error \<Rightarrow> error) \<Rightarrow> json_rsp \<Rightarrow> 'b hub_state
    \<Rightarrow> handler_result \<times> 'b hub_state" where
  "write_json l header_first marshal_failed write_failed jsonRsp s =
    (let s1 = (if header_first
               then s\<lparr>writer := Header_Set (writer s) contentTypeHeader contentTypeJSON\<rparr>
               else s) in
     case json_Marshal l jsonRsp of
       Inl e \<Rightarrow> (Returns StatusInternalServerError (Some (marshal_failed e)), s1)
     | Inr jsonData \<Rightarrow>
         (let s2 = (if header_first then s1
                    else s1\<lparr>writer := Header_Set (writer s1) contentTypeHeader contentTypeJSON\<rparr>)
          in case Write (writer s2) (Data jsonData) of
               (Some e, w) \<Rightarrow>
                 (Returns StatusInternalServerError (Some (write_failed e)), s2\<lparr>writer := w\<rparr>)
             | (None, w) \<Rightarrow> (Returns StatusOK None, s2\<lparr>writer := w\<rparr>)))"

text \<open>
  The test \<open>root != nil && p(root.TreeSize)\<close> on the signed log root of a response:
  the tree size when the root is there and the test holds.
\<close>

definition tree_size_if :: "SignedLogRoot option \<Rightarrow> (int \<Rightarrow> bool) \<Rightarrow> int option" where
  "tree_size_if root p =
    (case root of None \<Rightarrow> None | Some x \<Rightarrow> if p (TreeSize x) then Some (TreeSize x) else None)"

definition addLogHead ::
  "lib \<Rightarrow> 'b hubInfo \<Rightarrow> Request \<Rightarrow> 'b hub_state \<Rightarrow> handler_result \<times> 'b hub_state" where
  "addLogHead l c r s =
    (case Body r of
       Inl e \<Rightarrow>
         (Returns StatusBadRequest
            (Some (Errorf ''failed to read add-log-head body: %v'' [ArgErr e])), s)
     | Inr bd \<Rightarrow>
     (case json_Unmarshal l bd of
       Inl e \<Rightarrow>
         (Returns StatusBadRequest
            (Some (Errorf ''failed to parse add-log-head body: %v'' [ArgErr e])), s)
     | Inr req \<Rightarrow>
     (case cryptoMap c (req_SourceURL req) of
       None \<Rightarrow>
         (Returns StatusNotFound
            (Some (Errorf ''unknown source log %q'' [ArgStr (req_SourceURL req)])), s)
     | Some cryptoInfo \<Rightarrow>
     (case Verify l (pubKey cryptoInfo) (hasher cryptoInfo) (req_HeadData req)
             (req_Signature req) of
       Some e \<Rightarrow>
         (Returns StatusBadRequest
            (Some (Errorf ''failed to validate signature from %q''
                     [ArgStr (req_SourceURL req)])), s)
     | None \<Rightarrow>
     (case tls_Marshal l (ByPointer \<lparr>SourceURL = bytes_of (req_SourceURL req),
               HeadData = req_HeadData req, Signature = req_Signature req\<rparr>) of
       Inl e \<Rightarrow>
         (Returns StatusBadRequest
            (Some (Errorf ''failed to create hub leaf: %v'' [ArgErr e])), s)
     | Inr leafData \<Rightarrow>
     (case call_QueueLeaves c
             \<lparr>ql_LogId = logID c,
              ql_Leaves = [\<lparr>LeafValue = leafData, LeafIdentityHash = Sum256 l leafData,
                            LeafIndex = 0\<rparr>]\<rparr> s of
       (Inl e, s') \<Rightarrow>
         (Returns (toHTTPStatus c e)
            (Some (Errorf ''backend QueueLeaves request failed: %v'' [ArgErr e])), s')
     | (Inr None, s') \<Rightarrow>
         (Returns StatusInternalServerError
            (Some (Errorf ''missing QueueLeaves response'' [])), s')
     | (Inr (Some rsp), s') \<Rightarrow>
         if length (QueuedLeaves rsp) \<noteq> 1
         then (Returns StatusInternalServerError
                 (Some (Errorf ''unexpected QueueLeaves response leaf count: %d''
                          [ArgInt (int (length (QueuedLeaves rsp)))])), s')
         else (Returns StatusOK None, s')))))))"

definition parseGetSTHConsistencyRange :: "Request \<Rightarrow> error + int \<times> int" where
  "parseGetSTHConsistencyRange r =
    (let firstVal = FormValue r GetSTHConsistencyFirst;
         secondVal = FormValue r GetSTHConsistencySecond in
     if firstVal = [] then Inl (Errorf ''parameter 'first' is required'' [])
     else if secondVal = [] then Inl (Errorf ''parameter 'second' is required'' [])
     else
       (case ParseInt firstVal of
          Inl e \<Rightarrow> Inl (Errorf ''parameter 'first' is malformed'' [])
        | Inr first \<Rightarrow>
            (case ParseInt secondVal of
               Inl e \<Rightarrow> Inl (Errorf ''parameter 'second' is malformed'' [])
             | Inr second \<Rightarrow>
                 if first < 0 \<or> second < 0
                 then Inl (Errorf ''first and second params cannot be <0: %d %d''
                             [ArgInt first, ArgInt second])
                 else if second < first
                 then Inl (Errorf ''invalid first, second params: %d %d''
                             [ArgInt first, ArgInt second])
                 else Inr (first, second))))"

definition consistency_marshal_failed :: "error \<Rightarrow> error" where
  "consistency_marshal_failed e =
    Errorf ''failed to marshal get-sth-consistency resp: %v because %v''
      [ArgVal ''jsonRsp'', ArgErr e]"

definition consistency_write_failed :: "error \<Rightarrow> error" where
  "consistency_write_failed e =
    Errorf ''failed to write get-sth-consistency resp: %v because %v''
      [ArgVal ''jsonRsp'', ArgErr e]"

definition getSTHConsistency ::
  "lib \<Rightarrow> 'b hubInfo \<Rightarrow> Request \<Rightarrow> 'b hub_state \<Rightarrow> handler_result \<times> 'b hub_state" where
  "getSTHConsistency l c r s =
    (case parseGetSTHConsistencyRange r of
       Inl e \<Rightarrow>
         (Returns StatusBadRequest
            (Some (Errorf ''failed to parse consistency range: %v'' [ArgErr e])), s)
     | Inr (first, second) \<Rightarrow>
         if first \<noteq> 0 then
           (case call_GetConsistencyProof c
                   \<lparr>cp_LogId = logID c, FirstTreeSize = first, SecondTreeSize = second\<rparr> s of
              (Inl e, s') \<Rightarrow>
                (Returns (toHTTPStatus c e)
                   (Some (Errorf ''backend GetConsistencyProof request failed: %v''
                            [ArgErr e])), s')
            | (Inr None, s') \<Rightarrow> (Panics, s')
            | (Inr (Some rsp), s') \<Rightarrow>
                (case tree_size_if (cp_SignedLogRoot rsp) (\<lambda>t. t < second) of
                   Some got \<Rightarrow>
                     (Returns StatusBadRequest
                        (Some (Errorf ''need tree size: %d for proof but only got: %d''
                                 [ArgInt second, ArgInt got])), s')
                 | None \<Rightarrow>
                     (case cp_Proof rsp of
                        None \<Rightarrow> (Panics, s')
                      | Some prf \<Rightarrow>
                          (case checkHashSizes (Hashes prf) of
                             Some e \<Rightarrow>
                               (Returns StatusInternalServerError
                                  (Some (Errorf ''backend returned invalid proof %v: %v''
                                           [ArgVal ''rsp.Proof'', ArgErr e])), s')
                           | None \<Rightarrow>
                               write_json l True consistency_marshal_failed
                                 consistency_write_failed
                                 (GetSTHConsistencyResponse
                                    (if Hashes prf = None then emptyProof else Hashes prf))
                                 s'))))
         else
           write_json l True consistency_marshal_failed consistency_write_failed
             (GetSTHConsistencyResponse emptyProof) s)"

definition proof_marshal_failed :: "error \<Rightarrow> error" where
  "proof_marshal_failed e =
    Errorf ''failed to marshal get-proof-by-hash resp: %v, error: %v''
      [ArgVal ''proofRsp'', ArgErr e]"

definition proof_write_failed :: "error \<Rightarrow> error" where
  "proof_write_failed e =
    Errorf ''failed to write get-proof-by-hash resp: %v'' [ArgVal ''proofRsp'']"

definition getProofByHash ::
  "lib \<Rightarrow> 'b hubInfo \<Rightarrow> Request \<Rightarrow> 'b hub_state \<Rightarrow> handler_result \<times> 'b hub_state" where
  "getProofByHash l c r s =
    (let hash = FormValue r GetProofByHashArg in
     if length hash = 0
     then (Returns StatusBadRequest
             (Some (Errorf
                ''get-proof-by-hash: missing / empty hash param for get-proof-by-hash'' [])), s)
     else
     (case base64_DecodeString l hash of
       Inl e \<Rightarrow>
         (Returns StatusBadRequest
            (Some (Errorf ''get-proof-by-hash: invalid base64 hash: %v'' [ArgErr e])), s)
     | Inr leafHash \<Rightarrow>
     (case ParseInt (FormValue r GetProofByHashSize) of
       Inl e \<Rightarrow>
         (Returns StatusBadRequest
            (Some (Errorf ''get-proof-by-hash: missing or invalid tree_size: %v''
                     [ArgErr e])), s)
     | Inr treeSize \<Rightarrow>
         if treeSize < 1
         then (Returns StatusBadRequest
                 (Some (Errorf ''get-proof-by-hash: missing or invalid tree_size: %v''
                          [ArgVal ''nil''])), s)
         else
         (case call_GetInclusionProofByHash c
                 \<lparr>ip_LogId = logID c, LeafHash = leafHash, ip_TreeSize = treeSize,
                  OrderBySequence = True\<rparr> s of
            (Inl e, s') \<Rightarrow>
              (Returns (toHTTPStatus c e)
                 (Some (Errorf ''backend GetInclusionProofByHash request failed: %v''
                          [ArgErr e])), s')
          | (Inr None, s') \<Rightarrow> (Panics, s')
          | (Inr (Some rsp), s') \<Rightarrow>
              (case tree_size_if (ip_SignedLogRoot rsp) (\<lambda>t. t < treeSize) of
                 Some got \<Rightarrow>
                   (Returns StatusNotFound
                      (Some (Errorf ''log returned tree size: %d but we expected: %d''
                               [ArgInt got, ArgInt treeSize])), s')
               | None \<Rightarrow>
                   (case ip_Proof rsp of
                      [] \<Rightarrow>
                        (Returns StatusNotFound
                           (Some (Errorf ''backend did not return a proof'' [])), s')
                    | None # others \<Rightarrow> (Panics, s')
                    | Some prf # others \<Rightarrow>
                        (case checkHashSizes (Hashes prf) of
                           Some e \<Rightarrow>
                             (Returns StatusInternalServerError
                                (Some (Errorf ''backend returned invalid proof %v: %v''
                                         [ArgVal ''rsp.Proof'', ArgErr e])), s')
                         | None \<Rightarrow>
                             write_json l False proof_marshal_failed proof_write_failed
                               (GetProofByHashResponse (proof_LeafIndex prf)
                                  (if Hashes prf = None then emptyProof else Hashes prf))
                               s')))))))"

definition parseGetEntriesRange :: "Request \<Rightarrow> int \<Rightarrow> error + int \<times> int" where
  "parseGetEntriesRange r maxRange =
    (case ParseInt (FormValue r GetEntriesStart) of
       Inl e \<Rightarrow> Inl e
     | Inr start \<Rightarrow>
         (case ParseInt (FormValue r GetEntriesEnd) of
            Inl e \<Rightarrow> Inl e
          | Inr end \<Rightarrow>
              if start < 0 \<or> end < 0
              then Inl (Errorf ''start (%d) and end (%d) parameters must be >= 0''
                          [ArgInt start, ArgInt end])
              else if start > end
              then Inl (Errorf ''start (%d) and end (%d) is not a valid range''
                          [ArgInt start, ArgInt end])
              else
                (let count = add64 (sub64 end start) 1 in
                 if count > maxRange then Inr (start, sub64 (add64 start maxRange) 1)
                 else Inr (start, end))))"

text \<open>
  The first loop of \<open>getEntries\<close> over the leaves of the response: every leaf index
  is compared with \<open>start + int64(i)\<close>. \<open>Inl None\<close> is the panic on a nil leaf,
  \<open>Inl (Some e)\<close> the error of the first mismatch.
\<close>

fun check_indices :: "int \<Rightarrow> int \<Rightarrow> nat \<Rightarrow> LogLeaf option list \<Rightarrow> error option + unit" where
  "check_indices start end i [] = Inr ()"
| "check_indices start end i (None # leaves) = Inl None"
| "check_indices start end i (Some leaf # leaves) =
    (if LeafIndex leaf \<noteq> add64 start (int i)
     then Inl (Some (Errorf
       ''backend returned unexpected leaf index: rsp.Leaves[%d].LeafIndex=%d for range [%d,%d]''
       [ArgInt (int i), ArgInt (LeafIndex leaf), ArgInt start, ArgInt end]))
     else check_indices start end (Suc i) leaves)"

text \<open>
  The second loop: every leaf value must decode as a \<open>HubLeafEntry\<close> with nothing left
  over; the entries of the response are the leaf values as they came, appended to a
  slice that is nil at first (\<open>entries\<close>).
\<close>

fun collect_entries ::
  "lib \<Rightarrow> string \<Rightarrow> bytes list option \<Rightarrow> LogLeaf option list
    \<Rightarrow> error option + bytes list option" where
  "collect_entries l pfx entries [] = Inr entries"
| "collect_entries l pfx entries (None # leaves) = Inl None"
| "collect_entries l pfx entries (Some leaf # leaves) =
    (case tls_Unmarshal l (LeafValue leaf) of
       Inl e \<Rightarrow>
         Inl (Some (Errorf ''%s: Failed to deserialize Merkle leaf from backend: %d''
                      [ArgStr pfx, ArgInt (LeafIndex leaf)]))
     | Inr (hubLeaf, rest) \<Rightarrow>
         if length rest > 0
         then Inl (Some (Errorf ''%s: Trailing data after Merkle leaf from backend: %d''
                           [ArgStr pfx, ArgInt (LeafIndex leaf)]))
         else collect_entries l pfx
                (Some ((case entries of None \<Rightarrow> [] | Some es \<Rightarrow> es) @ [LeafValue leaf]))
                leaves)"

definition entries_marshal_failed :: "error \<Rightarrow> error" where
  "entries_marshal_failed e =
    Errorf ''failed to marshal get-entries resp: %v because: %v''
      [ArgVal ''jsonRsp'', ArgErr e]"

definition entries_write_failed :: "error \<Rightarrow> error" where
  "entries_write_failed e =
    Errorf ''failed to write get-entries resp: %v because: %v''
      [ArgVal ''jsonRsp'', ArgErr e]"

definition getEntries ::
  "lib \<Rightarrow> 'b hubInfo \<Rightarrow> Request \<Rightarrow> 'b hub_state \<Rightarrow> handler_result \<times> 'b hub_state" where
  "getEntries l c r s =
    (let maxRange = (if MaxGetEntries (opts c) = 0 then defaultMaxGetEntries
                     else MaxGetEntries (opts c)) in
     case parseGetEntriesRange r maxRange of
       Inl e \<Rightarrow>
         (Returns StatusBadRequest
            (Some (Errorf ''bad range on get-entries request: %v'' [ArgErr e])), s)
     | Inr (start, end) \<Rightarrow>
         (let count = sub64 (add64 end 1) start in
          case call_GetLeavesByRange c
                 \<lparr>lbr_LogId = logID c, StartIndex = start, Count = count\<rparr> s of
            (Inl e, s') \<Rightarrow>
              (Returns (toHTTPStatus c e)
                 (Some (Errorf ''backend GetLeavesByRange request failed: %v'' [ArgErr e])), s')
          | (Inr None, s') \<Rightarrow> (Panics, s')
          | (Inr (Some rsp), s') \<Rightarrow>
              (case tree_size_if (lbr_SignedLogRoot rsp) (\<lambda>t. t \<le> start) of
                 Some got \<Rightarrow>
                   (Returns StatusBadRequest
                      (Some (Errorf ''need tree size: %d to get leaves but only got: %d''
                               [ArgInt got, ArgInt start])), s')
               | None \<Rightarrow>
                   if int (length (Leaves rsp)) > count
                   then (Returns StatusInternalServerError
                           (Some (Errorf ''backend returned too many leaves: %d vs [%d,%d]''
                                    [ArgInt (int (length (Leaves rsp))), ArgInt start,
                                     ArgInt end])), s')
                   else
                     (case check_indices start end 0 (Leaves rsp) of
                        Inl None \<Rightarrow> (Panics, s')
                      | Inl (Some e) \<Rightarrow> (Returns StatusInternalServerError (Some e), s')
                      | Inr u \<Rightarrow>
                          (case collect_entries l (hubPrefix c) None (Leaves rsp) of
                             Inl None \<Rightarrow> (Panics, s')
                           | Inl (Some e) \<Rightarrow>
                               (Returns StatusInternalServerError (Some e), s')
                           | Inr entries \<Rightarrow>
                               write_json l False entries_marshal_failed entries_write_failed
                                 (GetEntriesResponse entries) s')))))"

subsection \<open>The wrapper\<close>

text \<open>
  \<open>AppHandler\<close> binds a handler function to a hub instance. \<open>ServeHTTP\<close> checks the
  method, parses the form of a GET request, calls the handler and sends an error for
  every outcome but status 200 without an error. The metrics and the log lines of the
  source are left out. It ends normally (\<open>True\<close>) or in a panic (\<open>False\<close>): the
  handler's, or the one of \<open>sendHTTPError\<close>. The field \<open>http_method\<close> is the field
  \<open>method\<close> of the source; \<open>send\<close> is a call of \<open>sendHTTPError\<close> on the writer of
  the state.
\<close>

record 'b AppHandler =
  info :: "'b hubInfo"
  epPath :: string
  handler :: "'b hubInfo \<Rightarrow> Request \<Rightarrow> 'b hub_state \<Rightarrow> handler_result \<times> 'b hub_state"
  http_method :: string

definition MethodGet :: string where
  "MethodGet = ''GET''"

definition MethodPost :: string where
  "MethodPost = ''POST''"

definition send :: "'b hub_state \<Rightarrow> int \<Rightarrow> error \<Rightarrow> bool \<times> 'b hub_state" where
  "send s statusCode e =
    (case sendHTTPError (writer s) statusCode e of (returned, w) \<Rightarrow> (returned, s\<lparr>writer := w\<rparr>))"

definition ServeHTTP :: "'b AppHandler \<Rightarrow> Request \<Rightarrow> 'b hub_state \<Rightarrow> bool \<times> 'b hub_state" where
  "ServeHTTP a r s =
    (if Method r \<noteq> http_method a
     then send s StatusMethodNotAllowed (Errorf ''method not allowed: %s'' [ArgStr (Method r)])
     else
       (case (if Method r = MethodGet then ParseForm r else None) of
          Some e \<Rightarrow>
            send s StatusBadRequest (Errorf ''failed to parse form data: %v'' [ArgErr e])
        | None \<Rightarrow>
            (case handler a (info a) r s of
               (Panics, s') \<Rightarrow> (False, s')
             | (Returns status (Some e), s') \<Rightarrow> send s' status e
             | (Returns status None, s') \<Rightarrow>
                 if status \<noteq> StatusOK
                 then send s' StatusInternalServerError
                        (Errorf ''http handler misbehaved, status: %d'' [ArgInt status])
                 else (True, s'))))"

section \<open>Notions the theorems use\<close>

subsection \<open>For the scanner\<close>

text \<open>\<open>numbered n xs\<close> pairs the elements of \<open>xs\<close> with \<open>n\<close>, \<open>n + 1\<close>, ...\<close>

fun numbered :: "int \<Rightarrow> 'a list \<Rightarrow> (int \<times> 'a) list" where
  "numbered n [] = []"
| "numbered n (x # xs) = (n, x) # numbered (n + 1) xs"

text \<open>
  \<open>deliver Leaf c ps\<close> is the consumer at work on its own: from the state \<open>c\<close> it is
  handed the pairs of \<open>ps\<close> one after the other and stops after the first it answers
  with an error. The result is the answer to the last call (\<open>None\<close> when it has
  accepted them all), the state of the consumer after it, and the pairs it has been
  handed.
\<close>

fun deliver ::
  "'c LogScanner \<Rightarrow> 'c \<Rightarrow> (int \<times> LogLeaf) list
    \<Rightarrow> error option \<times> 'c \<times> (int \<times> LogLeaf) list" where
  "deliver Leaf c [] = (None, c, [])"
| "deliver Leaf c ((n, l) # ps) =
    (case Leaf c n l of
       (Some e, c') \<Rightarrow> (Some e, c', [(n, l)])
     | (None, c') \<Rightarrow>
         (case deliver Leaf c' ps of (r, c'', given) \<Rightarrow> (r, c'', (n, l) # given)))"

text \<open>
  A backend that holds the leaves \<open>tree\<close> of log \<open>lid\<close>: in every state it reports the
  tree size \<open>length tree\<close>, and it answers a request for a chunk at \<open>n\<close> with the
  leaves from \<open>n\<close> on, at most \<open>CHUNK\<close> of them, and no skew.
\<close>

definition reports_size :: "'b TrillianLogClient \<Rightarrow> int \<Rightarrow> int \<Rightarrow> bool" where
  "reports_size tc lid ts =
    (\<forall>b. \<exists>lr root.
       fst (GetLatestSignedLogRoot tc b \<lparr>slr_LogId = lid\<rparr>) = Inr (Some lr)
       \<and> slr_SignedLogRoot lr = Some root \<and> TreeSize root = ts)"

definition serves_chunks :: "'b TrillianLogClient \<Rightarrow> int \<Rightarrow> LogLeaf list \<Rightarrow> bool" where
  "serves_chunks tc lid tree =
    (\<forall>b n. 0 \<le> n \<and> n < int (length tree) \<longrightarrow>
       (\<exists>r. fst (GetLeavesByRange tc b \<lparr>lbr_LogId = lid, StartIndex = n, Count = CHUNK\<rparr>)
              = Inr (Some r)
          \<and> Leaves r = map Some (take (nat CHUNK) (drop (nat n) tree))
          \<and> \<not> GetTreeSizeSet (Skew r)))"

text \<open>
  An example: a log of 25 leaves behind a backend that counts the calls it receives,
  and a consumer that counts its invocations and accepts every leaf.
\<close>

definition demo_tree :: "LogLeaf list" where
  "demo_tree =
    map (\<lambda>i. \<lparr>LeafValue = [of_nat i], LeafIdentityHash = [], LeafIndex = int i\<rparr>) [0..<25]"

definition demo_client :: "nat TrillianLogClient" where
  "demo_client =
    \<lparr>QueueLeaves = (\<lambda>b rq. (Inl (StatusErr codes_Unimplemented []), Suc b)),
     GetLatestSignedLogRoot = (\<lambda>b rq.
       (Inr (Some \<lparr>slr_SignedLogRoot =
          Some \<lparr>TreeSize = 25, LogRoot = [], LogRootSignature = []\<rparr>\<rparr>), Suc b)),
     GetConsistencyProof = (\<lambda>b rq. (Inl (StatusErr codes_Unimplemented []), Suc b)),
     GetInclusionProofByHash = (\<lambda>b rq. (Inl (StatusErr codes_Unimplemented []), Suc b)),
     GetLeavesByRange = (\<lambda>b rq.
       (Inr (Some \<lparr>Leaves = map Some (take (nat (Count rq)) (drop (nat (StartIndex rq)) demo_tree)),
          lbr_SignedLogRoot = None, Skew = None\<rparr>), Suc b))\<rparr>"

definition demo_Leaf :: "nat LogScanner" where
  "demo_Leaf c n l = (None, Suc c)"

text \<open>A consumer that counts its invocations as well and refuses the leaf 12.\<close>

definition picky_Leaf :: "nat LogScanner" where
  "picky_Leaf c n l = (if n = 12 then Some (LibErr ''stop'') else None, Suc c)"

text \<open>
  A backend whose answer to every chunk request is empty and revises the tree size
  to 30.
\<close>

definition stuck_client :: "nat TrillianLogClient" where
  "stuck_client =
    demo_client\<lparr>GetLeavesByRange := (\<lambda>b rq.
       (Inr (Some \<lparr>Leaves = [], lbr_SignedLogRoot = None,
          Skew = Some \<lparr>TreeSizeSet = True, skew_TreeSize = 30\<rparr>\<rparr>), Suc b))\<rparr>"

subsection \<open>For the handlers\<close>

text \<open>The override hook of the options declines an error, or there is none.\<close>

definition hook_declines :: "'b hubInfo \<Rightarrow> error \<Rightarrow> bool" where
  "hook_declines h e =
    (case ErrorMapper (opts h) of None \<Rightarrow> True | Some f \<Rightarrow> \<not> snd (f e))"

text \<open>The nodes of a proof; the nil slice has none.\<close>

definition nodes :: "bytes list option \<Rightarrow> bytes list" where
  "nodes path = (case path of None \<Rightarrow> [] | Some p \<Rightarrow> p)"

text \<open>
  An example of a hub: stand-ins for the libraries, one known source log, a request
  built from its query parameters, and a state in which nothing has happened yet.
\<close>

definition demo_unmarshal :: "bytes \<Rightarrow> error + AddLogHeadRequest" where
  "demo_unmarshal bd =
    (case bd of
       [] \<Rightarrow> Inl (LibErr ''unexpected end of JSON input'')
     | k # d \<Rightarrow>
         Inr \<lparr>req_SourceURL = (if k = 0 then ''log-a'' else ''log-b''),
              req_HeadData = d, req_Signature = [k]\<rparr>)"

text \<open>
  The stand-in for \<open>tls.Marshal\<close> does what the library does with what it is handed:
  it answers a pointer, which is none of the kinds it encodes, with an error. For a
  struct it answers with the fields in a row, which stands for an encoding; the
  handlers never hand it one.
\<close>

definition demo_lib :: lib where
  "demo_lib =
    \<lparr>json_Unmarshal = demo_unmarshal,
     json_Marshal = (\<lambda>x. Inr [123, 125]),
     Verify = (\<lambda>key h msg sg. if sg = key then None else Some (LibErr ''verification failed'')),
     Sum256 = (\<lambda>d. replicate 32 0),
     base64_DecodeString = (\<lambda>s. Inr (bytes_of s)),
     tls_Marshal = (\<lambda>x. case x of
         ByPointer e \<Rightarrow> Inl (LibErr ''tls: unsupported type'')
       | ByValue e \<Rightarrow> Inr (SourceURL e @ HeadData e @ Signature e)),
     tls_Unmarshal = (\<lambda>d. Inr (\<lparr>SourceURL = [], HeadData = d, Signature = []\<rparr>, []))\<rparr>"

definition demo_hook :: "error \<Rightarrow> int \<times> bool" where
  "demo_hook e = (if e = LibErr ''teapot'' then (418, True) else (0, False))"

definition demo_hub :: "nat hubInfo" where
  "demo_hub =
    \<lparr>opts = \<lparr>MaxGetEntries = 0, ErrorMapper = Some demo_hook\<rparr>,
     hubPrefix = ''hub'', logID = 7, urlPrefix = ''hub'', rpcClient = demo_client,
     cryptoMap = [''log-a'' \<mapsto> \<lparr>pubKeyData = [1], pubKey = [1], hasher = 5\<rparr>]\<rparr>"

definition demo_writer :: ResponseWriter where
  "demo_writer = \<lparr>headers = Map.empty, started = None, body = [], broken = False\<rparr>"

definition demo_state :: "nat hub_state" where
  "demo_state = \<lparr>log_server = 0, rpc_calls = [], writer = demo_writer\<rparr>"

definition get_request :: "(string \<times> string) list \<Rightarrow> Request" where
  "get_request ps =
    \<lparr>Method = ''GET'', ParseForm = None,
     FormValue = (\<lambda>k. case map_of ps k of None \<Rightarrow> [] | Some v \<Rightarrow> v),
     Body = Inr []\<rparr>"

definition post_request :: "bytes \<Rightarrow> Request" where
  "post_request bd =
    \<lparr>Method = ''POST'', ParseForm = None, FormValue = (\<lambda>k. []), Body = Inr bd\<rparr>"

text \<open>
  A handler function that returns status 503 and no error, having called nothing and
  written nothing; \<open>misbehaving\<close> is the entry point bound to it.
\<close>

definition bare_503 ::
  "nat hubInfo \<Rightarrow> Request \<Rightarrow> nat hub_state \<Rightarrow> handler_result \<times> nat hub_state" where
  "bare_503 c r s = (Returns 503 None, s)"

definition misbehaving :: "nat AppHandler" where
  "misbehaving = \<lparr>info = demo_hub, epPath = ''get-sth'', handler = bare_503,
     http_method = ''GET''\<rparr>"

text \<open>
  An entry point whose handler returns the status 0 with an error, as a handler does
  that takes its status from an \<open>ErrorMapper\<close> answering 0.
\<close>

definition status_zero :: "nat AppHandler" where
  "status_zero = \<lparr>info = demo_hub, epPath = ''get-sth'',
     handler = (\<lambda>c r s. (Returns 0 (Some (LibErr ''mapped'')), s)), http_method = ''GET''\<rparr>"

text \<open>
  Two backends whose consistency and inclusion proofs have a node of one byte: the
  first reports a tree of size 1 with them, the second sends no signed root.
\<close>

definition short_node_proof :: Proof where
  "short_node_proof = \<lparr>proof_LeafIndex = 0, Hashes = Some [[0]]\<rparr>"

definition small_root :: SignedLogRoot where
  "small_root = \<lparr>TreeSize = 1, LogRoot = [], LogRootSignature = []\<rparr>"

definition small_tree_hub :: "nat hubInfo" where
  "small_tree_hub =
    demo_hub\<lparr>rpcClient := demo_client
      \<lparr>GetConsistencyProof := (\<lambda>b rq.
         (Inr (Some \<lparr>cp_Proof = Some short_node_proof, cp_SignedLogRoot = Some small_root\<rparr>),
          Suc b)),
       GetInclusionProofByHash := (\<lambda>b rq.
         (Inr (Some \<lparr>ip_Proof = [Some short_node_proof], ip_SignedLogRoot = Some small_root\<rparr>),
          Suc b))\<rparr>\<rparr>"

definition rootless_hub :: "nat hubInfo" where
  "rootless_hub =
    demo_hub\<lparr>rpcClient := demo_client
      \<lparr>GetConsistencyProof := (\<lambda>b rq.
         (Inr (Some \<lparr>cp_Proof = Some short_node_proof, cp_SignedLogRoot = None\<rparr>), Suc b)),
       GetInclusionProofByHash := (\<lambda>b rq.
         (Inr (Some \<lparr>ip_Proof = [Some short_node_proof], ip_SignedLogRoot = None\<rparr>),
          Suc b))\<rparr>\<rparr>"

text \<open>
  A backend whose answer to an inclusion request carries two proofs: the first with one
  node of 32 bytes, the second with the node of one byte; it sends no signed root.
\<close>

definition sound_proof :: Proof where
  "sound_proof = \<lparr>proof_LeafIndex = 0, Hashes = Some [replicate 32 0]\<rparr>"

definition two_proofs_hub :: "nat hubInfo" where
  "two_proofs_hub =
    demo_hub\<lparr>rpcClient := demo_client
      \<lparr>GetInclusionProofByHash := (\<lambda>b rq.
         (Inr (Some \<lparr>ip_Proof = [Some sound_proof, Some short_node_proof],
                     ip_SignedLogRoot = None\<rparr>), Suc b))\<rparr>\<rparr>"

text \<open>
  The hashes that a handler puts into its response for a proof: those of the proof,
  and the empty list in place of nil.
\<close>

definition forwarded :: "Proof \<Rightarrow> bytes list option" where
  "forwarded p = (if Hashes p = None then emptyProof else Hashes p)"

text \<open>The page size that \<open>getEntries\<close> passes to \<open>parseGetEntriesRange\<close>.\<close>

definition max_entries :: "'b hubInfo \<Rightarrow> int" where
  "max_entries c =
    (if MaxGetEntries (opts c) = 0 then defaultMaxGetEntries else MaxGetEntries (opts c))"

text \<open>The example hub with a page size of 50.\<close>

definition paged_hub :: "nat hubInfo" where
  "paged_hub = demo_hub\<lparr>opts := \<lparr>MaxGetEntries = 50, ErrorMapper = None\<rparr>\<rparr>"

text \<open>
  Two backends that answer a request for leaves with the two leaves 0 and 1, whatever
  was asked: the first with a signed root of tree size 0, the second with none.
\<close>

definition two_leaves :: "LogLeaf option list" where
  "two_leaves =
    [Some \<lparr>LeafValue = [], LeafIdentityHash = [], LeafIndex = 0\<rparr>,
     Some \<lparr>LeafValue = [], LeafIdentityHash = [], LeafIndex = 1\<rparr>]"

definition empty_root :: SignedLogRoot where
  "empty_root = \<lparr>TreeSize = 0, LogRoot = [], LogRootSignature = []\<rparr>"

definition empty_tree_hub :: "nat hubInfo" where
  "empty_tree_hub =
    demo_hub\<lparr>rpcClient := demo_client
      \<lparr>GetLeavesByRange := (\<lambda>b rq.
         (Inr (Some \<lparr>Leaves = two_leaves, lbr_SignedLogRoot = Some empty_root,
                     Skew = None\<rparr>), Suc b))\<rparr>\<rparr>"

definition greedy_hub :: "nat hubInfo" where
  "greedy_hub =
    demo_hub\<lparr>rpcClient := demo_client
      \<lparr>GetLeavesByRange := (\<lambda>b rq.
         (Inr (Some \<lparr>Leaves = two_leaves, lbr_SignedLogRoot = None, Skew = None\<rparr>),
          Suc b))\<rparr>\<rparr>"

text \<open>
  A backend that answers a request for leaves with a nil leaf and, behind it, a leaf of
  index 7, and sends no signed root.
\<close>

definition nil_leaf_hub :: "nat hubInfo" where
  "nil_leaf_hub =
    demo_hub\<lparr>rpcClient := demo_client
      \<lparr>GetLeavesByRange := (\<lambda>b rq.
         (Inr (Some \<lparr>Leaves = [None, Some \<lparr>LeafValue = [], LeafIdentityHash = [],
                                            LeafIndex = 7\<rparr>],
                     lbr_SignedLogRoot = None, Skew = None\<rparr>),
          Suc b))\<rparr>\<rparr>"

text \<open>
  In a list of leaves a nil leaf comes first: before it every leaf is there and has
  the index of its place, counted from \<open>start\<close>.
\<close>

definition nil_leaf_first :: "int \<Rightarrow> LogLeaf option list \<Rightarrow> bool" where
  "nil_leaf_first start leaves =
    (\<exists>j<length leaves. leaves ! j = None
       \<and> (\<forall>i<j. \<exists>leaf. leaves ! i = Some leaf \<and> LeafIndex leaf = add64 start (int i)))"

text \<open>
  A hub that knows the source log \<open>log-b\<close>, and a library whose \<open>tls.Marshal\<close> answers
  every pointer with an error.
\<close>

definition log_b_hub :: "nat hubInfo" where
  "log_b_hub =
    demo_hub\<lparr>cryptoMap := [''log-b'' \<mapsto> \<lparr>pubKeyData = [1], pubKey = [1], hasher = 5\<rparr>]\<rparr>"

definition refuses_pointers :: "lib \<Rightarrow> bool" where
  "refuses_pointers l = (\<forall>x. \<exists>e. tls_Marshal l (ByPointer x) = Inl e)"

section \<open>Collections of defining equations\<close>

lemmas http_status_defs =
  StatusOK_def StatusBadRequest_def StatusUnauthorized_def StatusForbidden_def
  StatusNotFound_def StatusMethodNotAllowed_def StatusRequestTimeout_def StatusConflict_def
  StatusPreconditionFailed_def StatusInternalServerError_def StatusNotImplemented_def
  StatusServiceUnavailable_def

lemmas codes_defs =
  codes_OK_def codes_Canceled_def codes_Unknown_def codes_InvalidArgument_def
  codes_DeadlineExceeded_def codes_NotFound_def codes_AlreadyExists_def
  codes_PermissionDenied_def codes_ResourceExhausted_def codes_FailedPrecondition_def
  codes_Aborted_def codes_OutOfRange_def codes_Unimplemented_def codes_Internal_def
  codes_Unavailable_def codes_DataLoss_def codes_Unauthenticated_def

lemmas api_param_defs =
  GetSTHConsistencyFirst_def GetSTHConsistencySecond_def GetProofByHashArg_def
  GetProofByHashSize_def GetEntriesStart_def GetEntriesEnd_def

section \<open>The scanner delivers every leaf once, in order\<close>

lemma numbered_append:
  "numbered n (xs @ ys) = numbered n xs @ numbered (n + int (length xs)) ys"
  by (induction xs arbitrary: n) (simp_all add: add.assoc)

lemma length_numbered: "length (numbered n xs) = length xs"
  by (induction xs arbitrary: n) simp_all

lemma map_snd_numbered: "map snd (numbered n xs) = xs"
  by (induction xs arbitrary: n) simp_all

lemma map_fst_numbered: "map fst (numbered n xs) = map (\<lambda>i. n + int i) [0..<length xs]"
proof (induction xs arbitrary: n)
  case Nil
  show ?case by simp
next
  case (Cons x xs)
  have "map (\<lambda>i. n + int i) [0..<length (x # xs)] =
        n # map (\<lambda>i. n + int i) (map Suc [0..<length xs])"
    by (simp add: upt_conv_Cons map_Suc_upt del: upt_Suc)
  also have "\<dots> = n # map (\<lambda>i. (n + 1) + int i) [0..<length xs]"
    by (simp add: add.assoc)
  finally show ?case using Cons.IH [of "n + 1"] by simp
qed

text \<open>
  The consumer at work on two lists in a row, and the pairs it is handed: a prefix of
  the list, all of it when it accepts them all.
\<close>

lemma deliver_append:
  "deliver Leaf c (xs @ ys) =
    (case deliver Leaf c xs of
       (Some e, c', g) \<Rightarrow> (Some e, c', g)
     | (None, c', g) \<Rightarrow> (case deliver Leaf c' ys of (r, c'', g') \<Rightarrow> (r, c'', g @ g')))"
  by (induction Leaf c xs rule: deliver.induct) (auto split: prod.splits option.splits)

lemma deliver_given:
  "deliver Leaf c ps = (r, c', g) \<Longrightarrow>
     g = take (length g) ps \<and> length g \<le> length ps
     \<and> (r = None \<longrightarrow> g = ps) \<and> (r \<noteq> None \<longrightarrow> g \<noteq> [])"
  by (induction Leaf c ps arbitrary: r c' g rule: deliver.induct)
     (auto split: prod.splits option.splits)

text \<open>
  One chunk of leaves that are all there and all below \<open>ts\<close>: the inner loop is the
  consumer at work on them, numbered from the cursor.
\<close>

lemma leaves_loop_deliver:
  assumes "n + int (length ls) \<le> ts"
  shows "leaves_loop Leaf (map Some ls) n ts st =
    (case deliver Leaf (scanner st) (numbered n ls) of
       (r, c', g) \<Rightarrow>
         (map_option (\<lambda>e. Return (Some e)) r,
          (case r of None \<Rightarrow> n + int (length ls) | Some e \<Rightarrow> n + int (length g) - 1),
          st\<lparr>scanner := c', invoked := invoked st @ g\<rparr>))"
  using assms
proof (induction ls arbitrary: n st)
  case Nil
  then show ?case by simp
next
  case (Cons l ls)
  have lt: "n < ts" using Cons.prems by simp
  obtain eo c where c: "Leaf (scanner st) n l = (eo, c)" by (cases "Leaf (scanner st) n l")
  let ?st = "st\<lparr>scanner := c, invoked := invoked st @ [(n, l)]\<rparr>"
  show ?case
  proof (cases eo)
    case (Some e)
    with c lt show ?thesis by simp
  next
    case None
    from Cons.prems have fit: "(n + 1) + int (length ls) \<le> ts" by simp
    have "leaves_loop Leaf (map Some (l # ls)) n ts st = leaves_loop Leaf (map Some ls) (n + 1) ts ?st"
      using c None lt by simp
    also note Cons.IH [OF fit, of ?st]
    finally show ?thesis
      using c None by (simp split: prod.splits option.splits)
  qed
qed

text \<open>One turn of the outer loop on a response that has leaves.\<close>

lemma scan_loop_step:
  assumes "n < ts"
    and "GetLeavesByRange tc (backend st) \<lparr>lbr_LogId = lid, StartIndex = n, Count = CHUNK\<rparr>
           = (Inr (Some r), b)"
    and "Leaves r \<noteq> []"
    and "leaves_loop Leaf (Leaves r) n (adopt ts r) (st\<lparr>backend := b\<rparr>) = (r1, n1, st1)"
  shows "scan_loop tc Leaf lid n ts st =
    (case r1 of
       Some res \<Rightarrow> Some (res, n1, adopt ts r, st1)
     | None \<Rightarrow> scan_loop tc Leaf lid n1 (adopt ts r) st1)"
  by (subst scan_loop.simps) (simp add: assms split: option.split)

text \<open>
  The whole loop against a backend that serves the leaves in chunks: it returns, and it
  is the consumer at work on the leaves from the cursor on. It returns what the
  consumer answered last, with the cursor at the tree size when that is nil and at the
  leaf refused otherwise.
\<close>

lemma scan_loop_deliver:
  assumes sc: "serves_chunks tc lid tree"
  shows "0 \<le> n \<Longrightarrow> n \<le> int (length tree) \<Longrightarrow>
    deliver Leaf (scanner st) (numbered n (drop (nat n) tree)) = (r, c', g) \<Longrightarrow>
    \<exists>n' st'.
        scan_loop tc Leaf lid n (int (length tree)) st
          = Some (Return r, n', int (length tree), st')
      \<and> scanner st' = c'
      \<and> invoked st' = invoked st @ g
      \<and> (r = None \<longrightarrow> n' = int (length tree))
      \<and> (r \<noteq> None \<longrightarrow> n' = n + int (length g) - 1)"
proof (induction "nat (int (length tree) - n)" arbitrary: n st g rule: less_induct)
  case less
  let ?ts = "int (length tree)"
  show ?case
  proof (cases "n < ?ts")
    case False
    with less.prems have n: "n = ?ts" by simp
    then have "scan_loop tc Leaf lid n ?ts st = Some (Return None, n, ?ts, st)"
      by (subst scan_loop.simps) simp
    moreover have "r = None" "c' = scanner st" "g = []"
      using less.prems(3) n by simp_all
    ultimately show ?thesis
      apply (intro exI [of _ n] exI [of _ st])
      using n by simp
  next
    case True
    let ?chunk = "take (nat CHUNK) (drop (nat n) tree)"
    let ?rq = "\<lparr>lbr_LogId = lid, StartIndex = n, Count = CHUNK\<rparr>"
    from sc less.prems True obtain rsp where
      rsp: "fst (GetLeavesByRange tc (backend st) ?rq) = Inr (Some rsp)"
         "Leaves rsp = map Some ?chunk" "\<not> GetTreeSizeSet (Skew rsp)"
      unfolding serves_chunks_def by blast
    obtain b where b: "GetLeavesByRange tc (backend st) ?rq = (Inr (Some rsp), b)"
      using rsp(1) by (metis prod.collapse)
    have ad: "adopt ?ts rsp = ?ts" using rsp(3) by (simp add: adopt_def)
    have pos: "0 < length ?chunk" using True less.prems by (simp add: CHUNK_def)
    have fit: "n + int (length ?chunk) \<le> ?ts" using True less.prems by simp
    let ?n1 = "n + int (length ?chunk)"
    let ?rest = "drop (nat ?n1) tree"
    have "nat ?n1 = nat n + length ?chunk"
      using less.prems by (simp add: nat_add_distrib del: length_take)
    then have "?rest = drop (length ?chunk) (drop (nat n) tree)"
      by (simp add: add.commute)
    also have "\<dots> = drop (nat CHUNK) (drop (nat n) tree)"
      by (simp add: min_def)
    finally have split: "drop (nat n) tree = ?chunk @ ?rest"
      by (simp only: append_take_drop_id)
    have num: "numbered n (drop (nat n) tree) = numbered n ?chunk @ numbered ?n1 ?rest"
      by (subst split) (rule numbered_append)
    have ne: "Leaves rsp \<noteq> []" using rsp(2) pos by auto
    obtain r1 c1 g1 where d1: "deliver Leaf (scanner st) (numbered n ?chunk) = (r1, c1, g1)"
      by (metis prod_cases3)
    let ?st1 = "st\<lparr>backend := b, scanner := c1, invoked := invoked st @ g1\<rparr>"
    let ?m = "case r1 of None \<Rightarrow> ?n1 | Some e \<Rightarrow> n + int (length g1) - 1"
    have run: "leaves_loop Leaf (Leaves rsp) n (adopt ?ts rsp) (st\<lparr>backend := b\<rparr>)
        = (map_option (\<lambda>e. Return (Some e)) r1, ?m, ?st1)"
      unfolding rsp(2) ad
      using leaves_loop_deliver [OF fit, of Leaf "st\<lparr>backend := b\<rparr>"] d1 by simp
    note step = scan_loop_step [OF True b ne run, unfolded ad]
    from less.prems(3) have whole:
      "(case deliver Leaf (scanner st) (numbered n ?chunk) of
          (Some e, c2, g2) \<Rightarrow> (Some e, c2, g2)
        | (None, c2, g2) \<Rightarrow>
            (case deliver Leaf c2 (numbered ?n1 ?rest) of (r3, c3, g3) \<Rightarrow> (r3, c3, g2 @ g3)))
       = (r, c', g)"
      by (simp only: num deliver_append)
    show ?thesis
    proof (cases r1)
      case (Some e)
      with whole d1 have same: "r = Some e" "c' = c1" "g = g1" by simp_all
      have "scan_loop tc Leaf lid n ?ts st = Some (Return r, n + int (length g) - 1, ?ts, ?st1)"
        using step Some same by simp
      then show ?thesis
        apply (intro exI [of _ "n + int (length g) - 1"] exI [of _ ?st1])
        using same by simp
    next
      case None
      from deliver_given [OF d1] None have g1: "g1 = numbered n ?chunk" by simp
      obtain r2 c2 g2 where d2: "deliver Leaf c1 (numbered ?n1 ?rest) = (r2, c2, g2)"
        by (metis prod_cases3)
      with whole d1 None have same: "r = r2" "c' = c2" "g = g1 @ g2" by simp_all
      have dec: "nat (?ts - ?n1) < nat (?ts - n)" using pos True by simp
      have p0: "0 \<le> ?n1" using less.prems by simp
      have d2': "deliver Leaf (scanner ?st1) (numbered ?n1 ?rest) = (r, c', g2)"
        using d2 same by simp
      from less.hyps [OF dec p0 fit d2'] obtain n' st' where
        st': "scan_loop tc Leaf lid ?n1 ?ts ?st1 = Some (Return r, n', ?ts, st')"
             "scanner st' = c'"
             "invoked st' = invoked ?st1 @ g2"
             "r = None \<longrightarrow> n' = ?ts"
             "r \<noteq> None \<longrightarrow> n' = ?n1 + int (length g2) - 1"
        by (elim exE conjE) (rule that)
      have loop: "scan_loop tc Leaf lid n ?ts st = Some (Return r, n', ?ts, st')"
        using step None st'(1) by simp
      have len: "int (length g) = int (length ?chunk) + int (length g2)"
        using same(3) g1 by (simp add: length_numbered del: length_take)
      show ?thesis
        apply (intro exI [of _ n'] exI [of _ st'])
        using loop st'(2,3,4,5) same(3) len by simp
    qed
  qed
qed

text \<open>
  Whatever the backend and the consumer do, a scan that returns nil has its cursor at
  the tree size or beyond: the loop is left only when \<open>n < ts\<close> fails.
\<close>

lemma leaves_loop_not_nil:
  "leaves_loop Leaf ls n ts st = (Some res, n', st') \<Longrightarrow> res \<noteq> Return None"
  by (induction ls arbitrary: n st) (auto split: if_splits option.splits prod.splits)

lemma scan_loop_nil_aux:
  assumes "scan_loop tc Leaf lid n ts st = Some y"
  shows "fst y = Return None \<longrightarrow> fst (snd (snd y)) \<le> fst (snd y)"
  apply (rule scan_loop.raw_induct [where P =
    "\<lambda>tc Leaf lid n ts st y. fst y = Return None \<longrightarrow> fst (snd (snd y)) \<le> fst (snd y)",
    OF _ assms])
  subgoal premises prems for loop tc Leaf lid n ts st y
    using prems(2) prems(1)
    by (auto split: if_splits prod.splits sum.splits option.splits dest: leaves_loop_not_nil)
  done

lemma scan_loop_nil_cursor:
  "scan_loop tc Leaf lid n ts st = Some (Return None, n', ts', st') \<Longrightarrow> ts' \<le> n'"
  using scan_loop_nil_aux by fastforce

text \<open>
  C1. Against a backend that reports the tree size \<open>ts = length tree\<close>, serves the
  leaves in chunks of \<open>CHUNK\<close> and reports no skew, \<open>Scan\<close> returns, and what it has
  done to the consumer is what \<open>deliver\<close> does: the consumer has been invoked on the
  leaves numbered from 0, in order and each once, up to the first it refused; it is in
  the state these invocations leave it in; and \<open>Scan\<close> returns what the consumer
  answered last. \<open>Scan\<close> returns nil exactly when the cursor has reached \<open>ts\<close>, which
  is when the consumer has refused no leaf, and then the consumer has been invoked
  exactly \<open>ts\<close> times, with the indices 0, ..., \<open>ts - 1\<close> and with every leaf.
  Otherwise \<open>Scan\<close> returns the error of the consumer, the cursor is at the leaf
  refused and no later leaf has been handed over.
\<close>

theorem Scan_delivers_every_leaf_once:
  assumes "reports_size tc lid (int (length tree))" and "serves_chunks tc lid tree"
    and "deliver Leaf c (numbered 0 tree) = (r, c', given)"
  shows "\<exists>b1 n st.
      scan_loop tc Leaf lid 0 (int (length tree)) \<lparr>backend = b1, scanner = c, invoked = []\<rparr>
        = Some (Return r, n, int (length tree), st)
    \<and> Scan tc lid Leaf b c = Some (Return r, st)
    \<and> scanner st = c'
    \<and> invoked st = given
    \<and> (\<exists>k. invoked st = take k (numbered 0 tree))
    \<and> (r = None \<longleftrightarrow> n = int (length tree))
    \<and> (r = None \<longrightarrow>
          length (invoked st) = length tree
        \<and> map fst (invoked st) = map int [0..<length tree]
        \<and> map snd (invoked st) = tree)
    \<and> (r \<noteq> None \<longrightarrow>
          0 \<le> n \<and> n < int (length tree)
        \<and> invoked st = take (Suc (nat n)) (numbered 0 tree))"
proof -
  let ?ts = "int (length tree)"
  from assms(1) obtain lr root where
    lr: "fst (GetLatestSignedLogRoot tc b \<lparr>slr_LogId = lid\<rparr>) = Inr (Some lr)"
        "slr_SignedLogRoot lr = Some root" "TreeSize root = ?ts"
    unfolding reports_size_def by blast
  obtain b1 where b1: "GetLatestSignedLogRoot tc b \<lparr>slr_LogId = lid\<rparr> = (Inr (Some lr), b1)"
    using lr(1) by (metis prod.collapse)
  let ?st0 = "\<lparr>backend = b1, scanner = c, invoked = []\<rparr>"
  have d: "deliver Leaf (scanner ?st0) (numbered 0 (drop (nat 0) tree)) = (r, c', given)"
    using assms(3) by simp
  have "0 \<le> (0::int)" "0 \<le> ?ts" by simp_all
  from scan_loop_deliver [OF assms(2) this d] obtain n st where
    st: "scan_loop tc Leaf lid 0 ?ts ?st0 = Some (Return r, n, ?ts, st)"
        "scanner st = c'"
        "invoked st = invoked ?st0 @ given"
        "r = None \<longrightarrow> n = ?ts"
        "r \<noteq> None \<longrightarrow> n = 0 + int (length given) - 1"
    by (elim exE conjE) (rule that)
  have scan: "Scan tc lid Leaf b c = Some (Return r, st)"
    using b1 lr(2,3) st(1) by (simp add: Scan_def)
  have inv: "invoked st = given" using st(3) by simp
  note g = deliver_given [OF assms(3)]
  have pre: "\<exists>k. invoked st = take k (numbered 0 tree)"
    using g inv by auto
  have short: "r \<noteq> None \<longrightarrow> 0 \<le> n \<and> n < ?ts \<and> Suc (nat n) = length given"
  proof
    assume "r \<noteq> None"
    with g have "0 < length given" "length given \<le> length tree"
      by (simp_all add: length_numbered)
    moreover from \<open>r \<noteq> None\<close> st(5) have "n = int (length given) - 1" by simp
    ultimately show "0 \<le> n \<and> n < ?ts \<and> Suc (nat n) = length given"
      by (cases given) auto
  qed
  have iff: "r = None \<longleftrightarrow> n = ?ts"
    using st(4) short by auto
  have all: "r = None \<longrightarrow>
      length (invoked st) = length tree
    \<and> map fst (invoked st) = map int [0..<length tree]
    \<and> map snd (invoked st) = tree"
    using g inv by (simp add: length_numbered map_fst_numbered map_snd_numbered)
  have part: "r \<noteq> None \<longrightarrow>
      0 \<le> n \<and> n < ?ts \<and> invoked st = take (Suc (nat n)) (numbered 0 tree)"
    using short g inv by simp
  show ?thesis
    apply (intro exI [of _ b1] exI [of _ n] exI [of _ st])
    using st(1,2) scan inv pre iff all part by simp
qed

theorem Scan_delivers_every_leaf_once_witness:
  "(\<exists>b1 st.
      scan_loop demo_client demo_Leaf 7 0 25 \<lparr>backend = b1, scanner = 0, invoked = []\<rparr>
        = Some (Return None, 25, 25, st)
    \<and> Scan demo_client 7 demo_Leaf 0 0 = Some (Return None, st)
    \<and> scanner st = 25
    \<and> length (invoked st) = 25
    \<and> map fst (invoked st) =
         [0, 1, 2, 3, 4, 5, 6, 7, 8, 9, 10, 11, 12, 13, 14, 15, 16, 17, 18, 19, 20, 21,
          22, 23, 24]
    \<and> map snd (invoked st) = demo_tree)
 \<and> (\<exists>st.
      Scan demo_client 7 picky_Leaf 0 0 = Some (Return (Some (LibErr ''stop'')), st)
    \<and> scanner st = 13
    \<and> invoked st = take 13 (numbered 0 demo_tree))"
proof -
  have len: "length demo_tree = 25" by (simp add: demo_tree_def)
  have ix: "map int [0..<25] =
      [0, 1, 2, 3, 4, 5, 6, 7, 8, 9, 10, 11, 12, 13, 14, 15, 16, 17, 18, 19, 20, 21,
       22, 23, 24]"
    by code_simp
  have 1: "reports_size demo_client 7 (int (length demo_tree))"
    by (simp add: reports_size_def demo_client_def len)
  have 2: "serves_chunks demo_client 7 demo_tree"
    by (simp add: serves_chunks_def demo_client_def GetTreeSizeSet_def)
  have 3: "deliver demo_Leaf 0 (numbered 0 demo_tree) = (None, 25, numbered 0 demo_tree)"
    by code_simp
  have 4: "deliver picky_Leaf 0 (numbered 0 demo_tree)
      = (Some (LibErr ''stop''), 13, take 13 (numbered 0 demo_tree))"
    by code_simp
  from Scan_delivers_every_leaf_once [OF 1 2 3, of 0]
  obtain b1 n st where run:
    "scan_loop demo_client demo_Leaf 7 0 (int (length demo_tree))
       \<lparr>backend = b1, scanner = 0, invoked = []\<rparr>
       = Some (Return None, n, int (length demo_tree), st)"
    "Scan demo_client 7 demo_Leaf 0 0 = Some (Return None, st)"
    "scanner st = 25"
    "(None :: error option) = None \<longleftrightarrow> n = int (length demo_tree)"
    "(None :: error option) = None \<longrightarrow>
          length (invoked st) = length demo_tree
        \<and> map fst (invoked st) = map int [0..<length demo_tree]
        \<and> map snd (invoked st) = demo_tree"
    by (elim exE conjE) (rule that)
  from run(4) have n: "n = 25" by (simp add: len)
  have first: "\<exists>b1 st.
      scan_loop demo_client demo_Leaf 7 0 25 \<lparr>backend = b1, scanner = 0, invoked = []\<rparr>
        = Some (Return None, 25, 25, st)
    \<and> Scan demo_client 7 demo_Leaf 0 0 = Some (Return None, st)
    \<and> scanner st = 25
    \<and> length (invoked st) = 25
    \<and> map fst (invoked st) =
         [0, 1, 2, 3, 4, 5, 6, 7, 8, 9, 10, 11, 12, 13, 14, 15, 16, 17, 18, 19, 20, 21,
          22, 23, 24]
    \<and> map snd (invoked st) = demo_tree"
    apply (intro exI [of _ b1] exI [of _ st])
    using run(1,2,3,5) n by (simp add: len ix)
  from Scan_delivers_every_leaf_once [OF 1 2 4, of 0]
  obtain b2 n2 st2 where run2:
    "Scan demo_client 7 picky_Leaf 0 0 = Some (Return (Some (LibErr ''stop'')), st2)"
    "scanner st2 = 13"
    "invoked st2 = take 13 (numbered 0 demo_tree)"
    by (elim exE conjE) (rule that)
  then have second: "\<exists>st.
      Scan demo_client 7 picky_Leaf 0 0 = Some (Return (Some (LibErr ''stop'')), st)
    \<and> scanner st = 13
    \<and> invoked st = take 13 (numbered 0 demo_tree)"
    by blast
  from first second show ?thesis by (rule conjI)
qed


section \<open>The scanner stops at an empty chunk\<close>

text \<open>
  C9. With the cursor \<open>n\<close> below the tree size, a response without leaves that leaves
  \<open>n\<close> below the tree size it revises (\<open>adopt\<close>) ends the scan at once with the fatal
  error "No progress at leaf n": the consumer and the list of its invocations are as
  they were, and the backend is in the state after this one call.
\<close>

theorem Scan_aborts_on_empty_chunk:
  assumes "n < ts"
    and "GetLeavesByRange tc (backend st) \<lparr>lbr_LogId = lid, StartIndex = n, Count = CHUNK\<rparr>
           = (Inr (Some r), b)"
    and "Leaves r = []"
    and "n < adopt ts r"
  shows "scan_loop tc Leaf lid n ts st =
    Some (Fatalf (NoProgress n), n, adopt ts r, st\<lparr>backend := b\<rparr>)"
  using assms by (subst scan_loop.simps) simp

theorem Scan_aborts_on_empty_chunk_witness:
  "scan_loop stuck_client demo_Leaf 7 3 25 \<lparr>backend = 0, scanner = 3, invoked = []\<rparr> =
    Some (Fatalf (NoProgress 3), 3, 30, \<lparr>backend = 1, scanner = 3, invoked = []\<rparr>)"
proof -
  let ?r = "\<lparr>Leaves = [], lbr_SignedLogRoot = None,
             Skew = Some \<lparr>TreeSizeSet = True, skew_TreeSize = 30\<rparr>\<rparr>"
  let ?st = "\<lparr>backend = 0 :: nat, scanner = 3 :: nat, invoked = []\<rparr>"
  have 1: "(3::int) < 25" by simp
  have 2: "GetLeavesByRange stuck_client (backend ?st)
             \<lparr>lbr_LogId = 7, StartIndex = 3, Count = CHUNK\<rparr> = (Inr (Some ?r), 1)"
    by (simp add: stuck_client_def demo_client_def)
  have 3: "Leaves ?r = []" by simp
  have ad: "adopt 25 ?r = 30" by (simp add: adopt_def GetTreeSizeSet_def GetTreeSize_def)
  have 4: "3 < adopt 25 ?r" by (simp add: ad)
  show ?thesis using Scan_aborts_on_empty_chunk [OF 1 2 3 4, of demo_Leaf] by (simp add: ad)
qed

section \<open>The status mapper\<close>

text \<open>
  C5. \<open>toHTTPStatus\<close> answers with the status of the override hook when the hook
  accepts the error. When the hook declines, or there is none, an error that carries
  no gRPC status maps to internal-server-error, and the code of one that does maps by
  the fixed table: ok to success; cancelled and deadline-exceeded to timeout;
  invalid-argument, out-of-range and already-exists to bad-request; not-found to
  not-found; permission-denied and resource-exhausted to forbidden; unauthenticated to
  unauthorized; failed-precondition to precondition-failed; aborted to conflict;
  unimplemented to not-implemented; unavailable to service-unavailable; every other
  code to internal-server-error.
\<close>

theorem toHTTPStatus_table:
  "(\<forall>f st. ErrorMapper (opts h) = Some f \<and> f e = (st, True) \<longrightarrow> toHTTPStatus h e = st)
 \<and> (hook_declines h e \<longrightarrow>
      (FromError e = None \<longrightarrow> toHTTPStatus h e = StatusInternalServerError)
    \<and> (FromError e = Some codes_OK \<longrightarrow> toHTTPStatus h e = StatusOK)
    \<and> (FromError e = Some codes_Canceled \<longrightarrow> toHTTPStatus h e = StatusRequestTimeout)
    \<and> (FromError e = Some codes_DeadlineExceeded \<longrightarrow> toHTTPStatus h e = StatusRequestTimeout)
    \<and> (FromError e = Some codes_InvalidArgument \<longrightarrow> toHTTPStatus h e = StatusBadRequest)
    \<and> (FromError e = Some codes_OutOfRange \<longrightarrow> toHTTPStatus h e = StatusBadRequest)
    \<and> (FromError e = Some codes_AlreadyExists \<longrightarrow> toHTTPStatus h e = StatusBadRequest)
    \<and> (FromError e = Some codes_NotFound \<longrightarrow> toHTTPStatus h e = StatusNotFound)
    \<and> (FromError e = Some codes_PermissionDenied \<longrightarrow> toHTTPStatus h e = StatusForbidden)
    \<and> (FromError e = Some codes_ResourceExhausted \<longrightarrow> toHTTPStatus h e = StatusForbidden)
    \<and> (FromError e = Some codes_Unauthenticated \<longrightarrow> toHTTPStatus h e = StatusUnauthorized)
    \<and> (FromError e = Some codes_FailedPrecondition \<longrightarrow>
          toHTTPStatus h e = StatusPreconditionFailed)
    \<and> (FromError e = Some codes_Aborted \<longrightarrow> toHTTPStatus h e = StatusConflict)
    \<and> (FromError e = Some codes_Unimplemented \<longrightarrow> toHTTPStatus h e = StatusNotImplemented)
    \<and> (FromError e = Some codes_Unavailable \<longrightarrow> toHTTPStatus h e = StatusServiceUnavailable)
    \<and> (\<forall>code. FromError e = Some code
          \<and> code \<notin> {codes_OK, codes_Canceled, codes_DeadlineExceeded, codes_InvalidArgument,
                     codes_OutOfRange, codes_AlreadyExists, codes_NotFound,
                     codes_PermissionDenied, codes_ResourceExhausted, codes_Unauthenticated,
                     codes_FailedPrecondition, codes_Aborted, codes_Unimplemented,
                     codes_Unavailable}
          \<longrightarrow> toHTTPStatus h e = StatusInternalServerError))"
proof -
  have hook: "\<forall>f st. ErrorMapper (opts h) = Some f \<and> f e = (st, True) \<longrightarrow> toHTTPStatus h e = st"
    by (simp add: toHTTPStatus_def)
  have inner: "hook_declines h e \<Longrightarrow>
      (case ErrorMapper (opts h) of
         None \<Rightarrow> None
       | Some f \<Rightarrow> (case f e of (status, ok) \<Rightarrow> if ok then Some status else None)) = None"
    by (cases "ErrorMapper (opts h)") (auto simp: hook_declines_def split: prod.splits)
  have tab: "hook_declines h e \<Longrightarrow> toHTTPStatus h e =
      (case FromError e of
         None \<Rightarrow> StatusInternalServerError
       | Some code \<Rightarrow>
           if code = codes_OK then StatusOK
           else if code = codes_Canceled \<or> code = codes_DeadlineExceeded
             then StatusRequestTimeout
           else if code = codes_InvalidArgument \<or> code = codes_OutOfRange
                   \<or> code = codes_AlreadyExists
             then StatusBadRequest
           else if code = codes_NotFound then StatusNotFound
           else if code = codes_PermissionDenied \<or> code = codes_ResourceExhausted
             then StatusForbidden
           else if code = codes_Unauthenticated then StatusUnauthorized
           else if code = codes_FailedPrecondition then StatusPreconditionFailed
           else if code = codes_Aborted then StatusConflict
           else if code = codes_Unimplemented then StatusNotImplemented
           else if code = codes_Unavailable then StatusServiceUnavailable
           else StatusInternalServerError)"
    by (simp only: toHTTPStatus_def inner option.case)
  have table: "(hook_declines h e \<longrightarrow>
      (FromError e = None \<longrightarrow> toHTTPStatus h e = StatusInternalServerError)
    \<and> (FromError e = Some codes_OK \<longrightarrow> toHTTPStatus h e = StatusOK)
    \<and> (FromError e = Some codes_Canceled \<longrightarrow> toHTTPStatus h e = StatusRequestTimeout)
    \<and> (FromError e = Some codes_DeadlineExceeded \<longrightarrow> toHTTPStatus h e = StatusRequestTimeout)
    \<and> (FromError e = Some codes_InvalidArgument \<longrightarrow> toHTTPStatus h e = StatusBadRequest)
    \<and> (FromError e = Some codes_OutOfRange \<longrightarrow> toHTTPStatus h e = StatusBadRequest)
    \<and> (FromError e = Some codes_AlreadyExists \<longrightarrow> toHTTPStatus h e = StatusBadRequest)
    \<and> (FromError e = Some codes_NotFound \<longrightarrow> toHTTPStatus h e = StatusNotFound)
    \<and> (FromError e = Some codes_PermissionDenied \<longrightarrow> toHTTPStatus h e = StatusForbidden)
    \<and> (FromError e = Some codes_ResourceExhausted \<longrightarrow> toHTTPStatus h e = StatusForbidden)
    \<and> (FromError e = Some codes_Unauthenticated \<longrightarrow> toHTTPStatus h e = StatusUnauthorized)
    \<and> (FromError e = Some codes_FailedPrecondition \<longrightarrow>
          toHTTPStatus h e = StatusPreconditionFailed)
    \<and> (FromError e = Some codes_Aborted \<longrightarrow> toHTTPStatus h e = StatusConflict)
    \<and> (FromError e = Some codes_Unimplemented \<longrightarrow> toHTTPStatus h e = StatusNotImplemented)
    \<and> (FromError e = Some codes_Unavailable \<longrightarrow> toHTTPStatus h e = StatusServiceUnavailable)
    \<and> (\<forall>code. FromError e = Some code
          \<and> code \<notin> {codes_OK, codes_Canceled, codes_DeadlineExceeded, codes_InvalidArgument,
                     codes_OutOfRange, codes_AlreadyExists, codes_NotFound,
                     codes_PermissionDenied, codes_ResourceExhausted, codes_Unauthenticated,
                     codes_FailedPrecondition, codes_Aborted, codes_Unimplemented,
                     codes_Unavailable}
          \<longrightarrow> toHTTPStatus h e = StatusInternalServerError))"
    by (simp add: tab codes_defs)
  from hook table show ?thesis by (rule conjI)
qed

theorem toHTTPStatus_table_witness:
  "toHTTPStatus demo_hub (LibErr ''teapot'') = 418
 \<and> toHTTPStatus demo_hub (LibErr ''broken pipe'') = 500
 \<and> toHTTPStatus demo_hub (StatusErr 5 ''no such leaf'') = 404
 \<and> toHTTPStatus demo_hub (StatusErr 4 ''too slow'') = 408
 \<and> toHTTPStatus demo_hub (StatusErr 15 ''data loss'') = 500
 \<and> toHTTPStatus demo_hub (StatusErr 99 ''no such code'') = 500"
proof -
  have hook: "ErrorMapper (opts demo_hub) = Some demo_hook" by (simp add: demo_hub_def)
  have acc: "demo_hook (LibErr ''teapot'') = (418, True)" by (simp add: demo_hook_def)
  have dec: "hook_declines demo_hub (LibErr ''broken pipe'')"
    "hook_declines demo_hub (StatusErr c m)" for c m
    by (simp_all add: hook_declines_def demo_hub_def demo_hook_def)
  show ?thesis
    using toHTTPStatus_table [of demo_hub "LibErr ''teapot''"]
      toHTTPStatus_table [of demo_hub "LibErr ''broken pipe''"]
      toHTTPStatus_table [of demo_hub "StatusErr 5 ''no such leaf''"]
      toHTTPStatus_table [of demo_hub "StatusErr 4 ''too slow''"]
      toHTTPStatus_table [of demo_hub "StatusErr 15 ''data loss''"]
      toHTTPStatus_table [of demo_hub "StatusErr 99 ''no such code''"]
      hook acc dec
    by (simp add: codes_defs http_status_defs)
qed

section \<open>The submission handler contacts the backend last\<close>

text \<open>
  C2. \<open>addLogHead\<close> on a body that was read and parsed: when the source URL is not
  in the key registry it returns NotFound, and when the key is known but the signature
  over the head data does not verify it returns a bad-request error; in both cases the
  state is the one it was given, so no call has reached the backend and nothing has
  been written. In every case the calls to the backend are as before, or one
  \<open>QueueLeaves\<close> call has been added and then the lookup and the verification had
  both succeeded.
\<close>

theorem addLogHead_checks_before_backend:
  "(Body r = Inr bd \<and> json_Unmarshal l bd = Inr req \<and> cryptoMap c (req_SourceURL req) = None
      \<longrightarrow> addLogHead l c r s =
            (Returns StatusNotFound
               (Some (Errorf ''unknown source log %q'' [ArgStr (req_SourceURL req)])), s))
 \<and> (Body r = Inr bd \<and> json_Unmarshal l bd = Inr req
      \<and> cryptoMap c (req_SourceURL req) = Some ci
      \<and> Verify l (pubKey ci) (hasher ci) (req_HeadData req) (req_Signature req) = Some e
      \<longrightarrow> addLogHead l c r s =
            (Returns StatusBadRequest
               (Some (Errorf ''failed to validate signature from %q''
                        [ArgStr (req_SourceURL req)])), s))
 \<and> (rpc_calls (snd (addLogHead l c r s)) = rpc_calls s
      \<or> (\<exists>bd req ci rq.
            Body r = Inr bd \<and> json_Unmarshal l bd = Inr req
          \<and> cryptoMap c (req_SourceURL req) = Some ci
          \<and> Verify l (pubKey ci) (hasher ci) (req_HeadData req) (req_Signature req) = None
          \<and> rpc_calls (snd (addLogHead l c r s)) = rpc_calls s @ [QueueLeavesCall rq]))"
proof (intro conjI impI)
  assume "Body r = Inr bd \<and> json_Unmarshal l bd = Inr req
    \<and> cryptoMap c (req_SourceURL req) = None"
  then show "addLogHead l c r s =
      (Returns StatusNotFound
         (Some (Errorf ''unknown source log %q'' [ArgStr (req_SourceURL req)])), s)"
    by (simp add: addLogHead_def)
next
  assume "Body r = Inr bd \<and> json_Unmarshal l bd = Inr req
      \<and> cryptoMap c (req_SourceURL req) = Some ci
      \<and> Verify l (pubKey ci) (hasher ci) (req_HeadData req) (req_Signature req) = Some e"
  then show "addLogHead l c r s =
      (Returns StatusBadRequest
         (Some (Errorf ''failed to validate signature from %q''
                  [ArgStr (req_SourceURL req)])), s)"
    by (simp add: addLogHead_def)
next
  show "rpc_calls (snd (addLogHead l c r s)) = rpc_calls s
      \<or> (\<exists>bd req ci rq.
            Body r = Inr bd \<and> json_Unmarshal l bd = Inr req
          \<and> cryptoMap c (req_SourceURL req) = Some ci
          \<and> Verify l (pubKey ci) (hasher ci) (req_HeadData req) (req_Signature req) = None
          \<and> rpc_calls (snd (addLogHead l c r s)) = rpc_calls s @ [QueueLeavesCall rq])"
  proof (cases "Body r")
    case (Inl e1)
    then show ?thesis by (simp add: addLogHead_def)
  next
    case (Inr bd1)
    show ?thesis
    proof (cases "json_Unmarshal l bd1")
      case (Inl e2)
      with Inr show ?thesis by (simp add: addLogHead_def)
    next
      case req1: (Inr req1)
      show ?thesis
      proof (cases "cryptoMap c (req_SourceURL req1)")
        case None
        with Inr req1 show ?thesis by (simp add: addLogHead_def)
      next
        case (Some ci1)
        show ?thesis
        proof (cases "Verify l (pubKey ci1) (hasher ci1) (req_HeadData req1) (req_Signature req1)")
          case bad: (Some e4)
          with Inr req1 Some show ?thesis by (simp add: addLogHead_def)
        next
          case ok: None
          show ?thesis
          proof (cases "tls_Marshal l (ByPointer \<lparr>SourceURL = bytes_of (req_SourceURL req1),
               HeadData = req_HeadData req1, Signature = req_Signature req1\<rparr>)")
            case (Inl e5)
            with Inr req1 Some ok show ?thesis by (simp add: addLogHead_def)
          next
            case leaf: (Inr leafData)
            let ?rq = "\<lparr>ql_LogId = logID c,
              ql_Leaves = [\<lparr>LeafValue = leafData, LeafIdentityHash = Sum256 l leafData,
                            LeafIndex = 0\<rparr>]\<rparr>"
            have "rpc_calls (snd (addLogHead l c r s)) = rpc_calls s @ [QueueLeavesCall ?rq]"
              using Inr req1 Some ok leaf
              by (simp add: addLogHead_def call_QueueLeaves_def
                    split: prod.splits sum.splits option.splits)
            with Inr req1 Some ok show ?thesis by blast
          qed
        qed
      qed
    qed
  qed
qed

theorem addLogHead_checks_before_backend_witness:
  "addLogHead demo_lib demo_hub (post_request [1, 42]) demo_state =
     (Returns 404 (Some (Errorf ''unknown source log %q'' [ArgStr ''log-b''])), demo_state)
 \<and> addLogHead demo_lib demo_hub (post_request [0, 42]) demo_state =
     (Returns 400 (Some (Errorf ''failed to validate signature from %q'' [ArgStr ''log-a''])),
      demo_state)
 \<and> rpc_calls (snd (addLogHead demo_lib demo_hub (post_request [1, 42]) demo_state)) = []"
proof -
  have 1: "Body (post_request [1, 42]) = Inr [1, 42]
      \<and> json_Unmarshal demo_lib [1, 42]
          = Inr \<lparr>req_SourceURL = ''log-b'', req_HeadData = [42], req_Signature = [1]\<rparr>
      \<and> cryptoMap demo_hub
          (req_SourceURL \<lparr>req_SourceURL = ''log-b'', req_HeadData = [42], req_Signature = [1]\<rparr>)
          = None"
    by (simp add: post_request_def demo_lib_def demo_unmarshal_def demo_hub_def)
  have 2: "Body (post_request [0, 42]) = Inr [0, 42]
      \<and> json_Unmarshal demo_lib [0, 42]
          = Inr \<lparr>req_SourceURL = ''log-a'', req_HeadData = [42], req_Signature = [0]\<rparr>
      \<and> cryptoMap demo_hub
          (req_SourceURL \<lparr>req_SourceURL = ''log-a'', req_HeadData = [42], req_Signature = [0]\<rparr>)
          = Some \<lparr>pubKeyData = [1], pubKey = [1], hasher = 5\<rparr>
      \<and> Verify demo_lib (pubKey \<lparr>pubKeyData = [1], pubKey = [1], hasher = 5\<rparr>)
          (hasher \<lparr>pubKeyData = [1], pubKey = [1], hasher = 5\<rparr>)
          (req_HeadData \<lparr>req_SourceURL = ''log-a'', req_HeadData = [42], req_Signature = [0]\<rparr>)
          (req_Signature \<lparr>req_SourceURL = ''log-a'', req_HeadData = [42], req_Signature = [0]\<rparr>)
          = Some (LibErr ''verification failed'')"
    by (simp add: post_request_def demo_lib_def demo_unmarshal_def demo_hub_def)
  note a = addLogHead_checks_before_backend
    [of "post_request [1, 42]" "[1, 42]" demo_lib
      "\<lparr>req_SourceURL = ''log-b'', req_HeadData = [42], req_Signature = [1]\<rparr>"
      demo_hub demo_state, THEN conjunct1, rule_format, OF 1]
  note b = addLogHead_checks_before_backend
    [of "post_request [0, 42]" "[0, 42]" demo_lib
      "\<lparr>req_SourceURL = ''log-a'', req_HeadData = [42], req_Signature = [0]\<rparr>"
      demo_hub demo_state "\<lparr>pubKeyData = [1], pubKey = [1], hasher = 5\<rparr>"
      "LibErr ''verification failed''", THEN conjunct2, THEN conjunct1, rule_format, OF 2]
  show ?thesis using a b by (simp add: http_status_defs demo_state_def)
qed

section \<open>Consistency from the empty tree\<close>

lemma parseGetSTHConsistencyRange_valid:
  "parseGetSTHConsistencyRange r = Inr (first, second) \<Longrightarrow> 0 \<le> first \<and> first \<le> second"
  by (auto simp: parseGetSTHConsistencyRange_def Let_def split: if_splits sum.splits)

lemma write_json_calls:
  "rpc_calls (snd (write_json l hfirst mfail wfail x s)) = rpc_calls s
   \<and> log_server (snd (write_json l hfirst mfail wfail x s)) = log_server s"
  by (simp add: write_json_def Let_def split: sum.splits prod.splits option.splits)

lemma write_json_ok:
  "fst (write_json l hfirst mfail wfail x s) = Returns StatusOK None \<longleftrightarrow>
     (\<exists>d. json_Marshal l x = Inr d) \<and> \<not> broken (writer s)"
  by (auto simp: write_json_def Let_def Write_def Header_Set_def http_status_defs
        split: sum.splits prod.splits option.splits)

lemma write_json_body:
  assumes "json_Marshal l x = Inr d" and "\<not> broken (writer s)"
  shows "body (writer (snd (write_json l hfirst mfail wfail x s))) = body (writer s) @ [Data d]"
    and "headers (writer (snd (write_json l hfirst mfail wfail x s))) contentTypeHeader
           = Some contentTypeJSON"
  using assms
  by (simp_all add: write_json_def Let_def Write_def Header_Set_def
        split: sum.splits prod.splits option.splits)

lemma write_json_failed:
  assumes "fst (write_json l hfirst mfail wfail x s) \<noteq> Returns StatusOK None"
  shows "body (writer (snd (write_json l hfirst mfail wfail x s))) = body (writer s)"
    and "\<exists>e. fst (write_json l hfirst mfail wfail x s) = Returns StatusInternalServerError (Some e)"
  using assms
  by (auto simp: write_json_def Let_def Write_def Header_Set_def
        split: sum.splits prod.splits option.splits if_splits)

text \<open>
  C3. \<open>getSTHConsistency\<close> on parameters that parse and validate, with \<open>first = 0\<close>:
  whatever \<open>second\<close> is, no call reaches the backend, and the response that is
  marshalled is the one with the explicitly empty proof (\<open>Some []\<close>, never nil). The
  handler returns success exactly when that response can be marshalled and written
  to the client; its JSON is then what has been written, as \<open>application/json\<close>.
  Otherwise it returns an internal server error and writes nothing.
\<close>

theorem getSTHConsistency_from_empty_tree:
  assumes "parseGetSTHConsistencyRange r = Inr (0, second)"
  shows "rpc_calls (snd (getSTHConsistency l c r s)) = rpc_calls s
    \<and> log_server (snd (getSTHConsistency l c r s)) = log_server s
    \<and> (fst (getSTHConsistency l c r s) = Returns StatusOK None \<longleftrightarrow>
         (\<exists>d. json_Marshal l (GetSTHConsistencyResponse (Some [])) = Inr d)
         \<and> \<not> broken (writer s))
    \<and> (\<forall>d. json_Marshal l (GetSTHConsistencyResponse (Some [])) = Inr d
            \<and> \<not> broken (writer s) \<longrightarrow>
          body (writer (snd (getSTHConsistency l c r s))) = body (writer s) @ [Data d]
        \<and> headers (writer (snd (getSTHConsistency l c r s))) contentTypeHeader
            = Some contentTypeJSON)
    \<and> (fst (getSTHConsistency l c r s) \<noteq> Returns StatusOK None \<longrightarrow>
          body (writer (snd (getSTHConsistency l c r s))) = body (writer s)
        \<and> (\<exists>e. fst (getSTHConsistency l c r s) = Returns StatusInternalServerError (Some e)))"
proof -
  have eq: "getSTHConsistency l c r s =
      write_json l True consistency_marshal_failed consistency_write_failed
        (GetSTHConsistencyResponse (Some [])) s"
    using assms by (simp add: getSTHConsistency_def emptyProof_def)
  note calls = write_json_calls [of l True consistency_marshal_failed consistency_write_failed
      "GetSTHConsistencyResponse (Some [])" s]
  note ok = write_json_ok [of l True consistency_marshal_failed consistency_write_failed
      "GetSTHConsistencyResponse (Some [])" s]
  note wrote = write_json_body [of l "GetSTHConsistencyResponse (Some [])" _ s True
      consistency_marshal_failed consistency_write_failed]
  note failed = write_json_failed [of l True consistency_marshal_failed
      consistency_write_failed "GetSTHConsistencyResponse (Some [])" s]
  show ?thesis
    unfolding eq
  proof (intro conjI allI impI)
    fix d
    assume "json_Marshal l (GetSTHConsistencyResponse (Some [])) = Inr d \<and> \<not> broken (writer s)"
    then have d: "json_Marshal l (GetSTHConsistencyResponse (Some [])) = Inr d"
      "\<not> broken (writer s)" by simp_all
    from wrote(1) [OF d] show "body (writer (snd (write_json l True consistency_marshal_failed
        consistency_write_failed (GetSTHConsistencyResponse (Some [])) s)))
        = body (writer s) @ [Data d]" .
    from wrote(2) [OF d] show "headers (writer (snd (write_json l True
        consistency_marshal_failed consistency_write_failed
        (GetSTHConsistencyResponse (Some [])) s))) contentTypeHeader = Some contentTypeJSON" .
  qed (use calls ok failed in simp_all)
qed

theorem getSTHConsistency_from_empty_tree_witness:
  "parseGetSTHConsistencyRange (get_request [(''first'', ''0''), (''second'', ''17'')])
     = Inr (0, 17)
 \<and> fst (getSTHConsistency demo_lib demo_hub
       (get_request [(''first'', ''0''), (''second'', ''17'')]) demo_state) = Returns 200 None
 \<and> rpc_calls (snd (getSTHConsistency demo_lib demo_hub
       (get_request [(''first'', ''0''), (''second'', ''17'')]) demo_state)) = []
 \<and> log_server (snd (getSTHConsistency demo_lib demo_hub
       (get_request [(''first'', ''0''), (''second'', ''17'')]) demo_state)) = 0
 \<and> body (writer (snd (getSTHConsistency demo_lib demo_hub
       (get_request [(''first'', ''0''), (''second'', ''17'')]) demo_state))) = [Data [123, 125]]"
proof -
  let ?r = "get_request [(''first'', ''0''), (''second'', ''17'')]"
  have p: "parseGetSTHConsistencyRange ?r = Inr (0, 17)"
    by (simp add: parseGetSTHConsistencyRange_def get_request_def api_param_defs ParseInt_def
          digit_of_def in_int64_def)
  have m: "json_Marshal demo_lib (GetSTHConsistencyResponse (Some [])) = Inr [123, 125]"
    by (simp add: demo_lib_def)
  have w: "\<not> broken (writer demo_state)" "body (writer demo_state) = []"
    "rpc_calls demo_state = []" "log_server demo_state = 0"
    by (simp_all add: demo_state_def demo_writer_def)
  show ?thesis
    using getSTHConsistency_from_empty_tree [OF p, of demo_lib demo_hub demo_state] p m w
    by (simp add: http_status_defs)
qed

section \<open>The wrapper answers a status without an error\<close>

lemma ServeHTTP_after_handler:
  assumes "Method r = http_method a"
    and "Method r = MethodGet \<longrightarrow> ParseForm r = None"
    and "handler a (info a) r s = (Returns status eo, s')"
  shows "ServeHTTP a r s =
    (case eo of
       Some e \<Rightarrow> send s' status e
     | None \<Rightarrow>
         if status \<noteq> StatusOK
         then send s' StatusInternalServerError
                (Errorf ''http handler misbehaved, status: %d'' [ArgInt status])
         else (True, s'))"
proof -
  have parsed: "(if Method r = MethodGet then ParseForm r else None) = None"
    using assms(2) by simp
  show ?thesis
    using assms(1,3) parsed by (cases eo) (simp_all add: ServeHTTP_def)
qed

lemma send_returns:
  "fst (send s code e) \<longleftrightarrow> started (writer s) \<noteq> None \<or> (100 \<le> code \<and> code \<le> 999)"
  by (auto simp: send_def sendHTTPError_def WriteHeader_def Header_Set_def Let_def
        split: prod.splits)

lemma send_client:
  assumes "\<not> broken (writer s)" and "fst (send s code e)"
  shows "body (writer (snd (send s code e))) = body (writer s) @ [ErrorText code e]"
    and "started (writer s) = None \<Longrightarrow> started (writer (snd (send s code e))) = Some code"
    and "started (writer s) = Some c \<Longrightarrow> started (writer (snd (send s code e))) = Some c"
  using assms
  by (auto simp: send_def sendHTTPError_def WriteHeader_def Write_def Header_Set_def Let_def
        split: prod.splits if_splits)

lemma send_panics:
  assumes "\<not> fst (send s code e)"
  shows "body (writer (snd (send s code e))) = body (writer s)"
    and "started (writer (snd (send s code e))) = None"
  using assms
  by (auto simp: send_def sendHTTPError_def WriteHeader_def Write_def Header_Set_def Let_def
        split: prod.splits if_splits)

text \<open>
  C10. A request that reaches the handler function (the method is the handler's, and
  the form of a GET request parses), whose handler returns a status and an error or
  nil. If the error is nil and the status is not 200, \<open>ServeHTTP\<close> calls
  \<open>sendHTTPError\<close> with status 500 and the error "http handler misbehaved, status:
  ...", and returns; on a connection that works the error text is appended to the
  body, and the response has status 500 when the handler had not started it. The
  writer is left as the handler left it only for status 200 with a nil error. A
  handler's error is sent with the handler's status; that call returns when the
  response has been started or the status is one of 100..999, and ends in the panic
  of \<open>WriteHeader\<close> otherwise, with nothing sent. In every case, on a connection that
  works, a status that the wrapper gives the response comes with an error text in the
  body.
\<close>

theorem ServeHTTP_handler_misbehaved:
  assumes "Method r = http_method a"
    and "Method r = MethodGet \<longrightarrow> ParseForm r = None"
    and "handler a (info a) r s = (Returns status eo, s')"
  shows "(eo = None \<and> status \<noteq> StatusOK \<longrightarrow>
        ServeHTTP a r s =
          (True, s'\<lparr>writer := snd (sendHTTPError (writer s') StatusInternalServerError
                     (Errorf ''http handler misbehaved, status: %d'' [ArgInt status]))\<rparr>)
      \<and> fst (sendHTTPError (writer s') StatusInternalServerError
                (Errorf ''http handler misbehaved, status: %d'' [ArgInt status]))
      \<and> (\<not> broken (writer s') \<longrightarrow>
            body (writer (snd (ServeHTTP a r s))) =
              body (writer s') @
                [ErrorText StatusInternalServerError
                   (Errorf ''http handler misbehaved, status: %d'' [ArgInt status])]
          \<and> (started (writer s') = None \<longrightarrow>
                started (writer (snd (ServeHTTP a r s))) = Some StatusInternalServerError)))
    \<and> (eo = None \<and> status = StatusOK \<longrightarrow> ServeHTTP a r s = (True, s'))
    \<and> (\<forall>e. eo = Some e \<longrightarrow>
          ServeHTTP a r s =
            (fst (sendHTTPError (writer s') status e),
             s'\<lparr>writer := snd (sendHTTPError (writer s') status e)\<rparr>)
        \<and> (fst (ServeHTTP a r s) \<longleftrightarrow>
              started (writer s') \<noteq> None \<or> (100 \<le> status \<and> status \<le> 999))
        \<and> (\<not> fst (ServeHTTP a r s) \<longrightarrow>
              body (writer (snd (ServeHTTP a r s))) = body (writer s')
            \<and> started (writer (snd (ServeHTTP a r s))) = None)
        \<and> (fst (ServeHTTP a r s) \<and> \<not> broken (writer s') \<longrightarrow>
              body (writer (snd (ServeHTTP a r s))) = body (writer s') @ [ErrorText status e]
            \<and> (started (writer s') = None \<longrightarrow>
                  started (writer (snd (ServeHTTP a r s))) = Some status)))
    \<and> (\<not> broken (writer s') \<longrightarrow>
         (\<forall>code. started (writer (snd (ServeHTTP a r s))) = Some code
                 \<and> started (writer s') \<noteq> Some code \<longrightarrow>
            fst (ServeHTTP a r s)
          \<and> (\<exists>e. body (writer (snd (ServeHTTP a r s))) = body (writer s') @ [ErrorText code e])))"
proof -
  let ?m = "Errorf ''http handler misbehaved, status: %d'' [ArgInt status]"
  note after = ServeHTTP_after_handler [OF assms]
  have sent: "send s' code e =
      (fst (sendHTTPError (writer s') code e), s'\<lparr>writer := snd (sendHTTPError (writer s') code e)\<rparr>)"
    for code e
    by (simp add: send_def split: prod.splits)
  have ok500: "fst (send s' StatusInternalServerError ?m)"
    by (simp add: send_returns http_status_defs)
  have 1: "eo = None \<and> status \<noteq> StatusOK \<longrightarrow>
        ServeHTTP a r s =
          (True, s'\<lparr>writer := snd (sendHTTPError (writer s') StatusInternalServerError ?m)\<rparr>)
      \<and> fst (sendHTTPError (writer s') StatusInternalServerError ?m)
      \<and> (\<not> broken (writer s') \<longrightarrow>
            body (writer (snd (ServeHTTP a r s))) =
              body (writer s') @ [ErrorText StatusInternalServerError ?m]
          \<and> (started (writer s') = None \<longrightarrow>
                started (writer (snd (ServeHTTP a r s))) = Some StatusInternalServerError))"
  proof (intro impI)
    assume h: "eo = None \<and> status \<noteq> StatusOK"
    then have eq: "ServeHTTP a r s = send s' StatusInternalServerError ?m"
      using after by simp
    show "ServeHTTP a r s =
          (True, s'\<lparr>writer := snd (sendHTTPError (writer s') StatusInternalServerError ?m)\<rparr>)
      \<and> fst (sendHTTPError (writer s') StatusInternalServerError ?m)
      \<and> (\<not> broken (writer s') \<longrightarrow>
            body (writer (snd (ServeHTTP a r s))) =
              body (writer s') @ [ErrorText StatusInternalServerError ?m]
          \<and> (started (writer s') = None \<longrightarrow>
                started (writer (snd (ServeHTTP a r s))) = Some StatusInternalServerError))"
      unfolding eq
      using ok500 send_client(1,2) [of s' StatusInternalServerError ?m]
      by (simp add: sent)
  qed
  have 2: "eo = None \<and> status = StatusOK \<longrightarrow> ServeHTTP a r s = (True, s')"
    using after by simp
  have 3: "eo = Some e \<longrightarrow>
          ServeHTTP a r s =
            (fst (sendHTTPError (writer s') status e),
             s'\<lparr>writer := snd (sendHTTPError (writer s') status e)\<rparr>)
        \<and> (fst (ServeHTTP a r s) \<longleftrightarrow>
              started (writer s') \<noteq> None \<or> (100 \<le> status \<and> status \<le> 999))
        \<and> (\<not> fst (ServeHTTP a r s) \<longrightarrow>
              body (writer (snd (ServeHTTP a r s))) = body (writer s')
            \<and> started (writer (snd (ServeHTTP a r s))) = None)
        \<and> (fst (ServeHTTP a r s) \<and> \<not> broken (writer s') \<longrightarrow>
              body (writer (snd (ServeHTTP a r s))) = body (writer s') @ [ErrorText status e]
            \<and> (started (writer s') = None \<longrightarrow>
                  started (writer (snd (ServeHTTP a r s))) = Some status))" for e
  proof (intro impI)
    assume h: "eo = Some e"
    then have eq: "ServeHTTP a r s = send s' status e"
      using after by simp
    show "ServeHTTP a r s =
            (fst (sendHTTPError (writer s') status e),
             s'\<lparr>writer := snd (sendHTTPError (writer s') status e)\<rparr>)
        \<and> (fst (ServeHTTP a r s) \<longleftrightarrow>
              started (writer s') \<noteq> None \<or> (100 \<le> status \<and> status \<le> 999))
        \<and> (\<not> fst (ServeHTTP a r s) \<longrightarrow>
              body (writer (snd (ServeHTTP a r s))) = body (writer s')
            \<and> started (writer (snd (ServeHTTP a r s))) = None)
        \<and> (fst (ServeHTTP a r s) \<and> \<not> broken (writer s') \<longrightarrow>
              body (writer (snd (ServeHTTP a r s))) = body (writer s') @ [ErrorText status e]
            \<and> (started (writer s') = None \<longrightarrow>
                  started (writer (snd (ServeHTTP a r s))) = Some status))"
      unfolding eq
      using send_returns [of s' status e] send_client(1,2) [of s' status e]
        send_panics [of s' status e] sent [of status e]
      by auto
  qed
  have 4: "\<not> broken (writer s') \<longrightarrow>
         (\<forall>code. started (writer (snd (ServeHTTP a r s))) = Some code
                 \<and> started (writer s') \<noteq> Some code \<longrightarrow>
            fst (ServeHTTP a r s)
          \<and> (\<exists>e. body (writer (snd (ServeHTTP a r s))) = body (writer s') @ [ErrorText code e]))"
  proof (intro impI allI)
    fix code
    assume nb: "\<not> broken (writer s')"
      and st: "started (writer (snd (ServeHTTP a r s))) = Some code
                 \<and> started (writer s') \<noteq> Some code"
    have sends: "\<exists>c e. ServeHTTP a r s = send s' c e"
    proof (cases eo)
      case None
      with st have "status \<noteq> StatusOK" using after by auto
      with None after show ?thesis by auto
    next
      case (Some e)
      with after show ?thesis by auto
    qed
    then obtain c e where eq: "ServeHTTP a r s = send s' c e" by blast
    have ret: "fst (send s' c e)"
      using st send_panics(2) [of s' c e] eq by auto
    have unstarted: "started (writer s') = None"
    proof (cases "started (writer s')")
      case (Some c0)
      from send_client(3) [OF nb ret Some] st eq Some show ?thesis by simp
    qed simp
    from send_client(2) [OF nb ret unstarted] st eq have "c = code" by simp
    with send_client(1) [OF nb ret] ret eq
    show "fst (ServeHTTP a r s)
          \<and> (\<exists>e. body (writer (snd (ServeHTTP a r s))) = body (writer s') @ [ErrorText code e])"
      by auto
  qed
  from 1 2 3 4 show ?thesis by blast
qed

theorem ServeHTTP_handler_misbehaved_witness:
  "ServeHTTP misbehaving (get_request []) demo_state =
     (True, demo_state\<lparr>writer := snd (sendHTTPError demo_writer 500
        (Errorf ''http handler misbehaved, status: %d'' [ArgInt 503]))\<rparr>)
 \<and> body (writer (snd (ServeHTTP misbehaving (get_request []) demo_state))) =
     [ErrorText 500 (Errorf ''http handler misbehaved, status: %d'' [ArgInt 503])]
 \<and> started (writer (snd (ServeHTTP misbehaving (get_request []) demo_state))) = Some 500
 \<and> \<not> fst (ServeHTTP status_zero (get_request []) demo_state)
 \<and> body (writer (snd (ServeHTTP status_zero (get_request []) demo_state))) = []"
proof -
  have 1: "Method (get_request []) = http_method misbehaving"
    by (simp add: get_request_def misbehaving_def)
  have 2: "Method (get_request []) = MethodGet \<longrightarrow> ParseForm (get_request []) = None"
    by (simp add: get_request_def)
  have 3: "handler misbehaving (info misbehaving) (get_request []) demo_state =
      (Returns 503 None, demo_state)"
    by (simp add: misbehaving_def bare_503_def)
  have w: "writer demo_state = demo_writer" "\<not> broken demo_writer" "started demo_writer = None"
    "body demo_writer = []"
    by (simp_all add: demo_state_def demo_writer_def)
  have pre: "(None :: error option) = None \<and> (503 :: int) \<noteq> StatusOK"
    by (simp add: http_status_defs)
  from ServeHTTP_handler_misbehaved [OF 1 2 3] pre
  have sent: "ServeHTTP misbehaving (get_request []) demo_state =
      (True, demo_state\<lparr>writer := snd (sendHTTPError (writer demo_state)
         StatusInternalServerError
         (Errorf ''http handler misbehaved, status: %d'' [ArgInt 503]))\<rparr>)"
    and seen: "\<not> broken (writer demo_state) \<longrightarrow>
      body (writer (snd (ServeHTTP misbehaving (get_request []) demo_state))) =
        body (writer demo_state) @
          [ErrorText StatusInternalServerError
             (Errorf ''http handler misbehaved, status: %d'' [ArgInt 503])]
      \<and> (started (writer demo_state) = None \<longrightarrow>
            started (writer (snd (ServeHTTP misbehaving (get_request []) demo_state)))
              = Some StatusInternalServerError)"
    by blast+
  from sent have a: "ServeHTTP misbehaving (get_request []) demo_state =
     (True, demo_state\<lparr>writer := snd (sendHTTPError demo_writer 500
        (Errorf ''http handler misbehaved, status: %d'' [ArgInt 503]))\<rparr>)"
    by (simp only: w http_status_defs)
  from seen w have b:
    "body (writer (snd (ServeHTTP misbehaving (get_request []) demo_state))) =
       [ErrorText 500 (Errorf ''http handler misbehaved, status: %d'' [ArgInt 503])]"
    "started (writer (snd (ServeHTTP misbehaving (get_request []) demo_state))) = Some 500"
    by (simp_all add: http_status_defs)
  have z1: "Method (get_request []) = http_method status_zero"
    by (simp add: get_request_def status_zero_def)
  have z3: "handler status_zero (info status_zero) (get_request []) demo_state =
      (Returns 0 (Some (LibErr ''mapped'')), demo_state)"
    by (simp add: status_zero_def)
  from ServeHTTP_handler_misbehaved [OF z1 2 z3]
  have zr: "fst (ServeHTTP status_zero (get_request []) demo_state) \<longleftrightarrow>
              started (writer demo_state) \<noteq> None \<or> (100 \<le> (0 :: int) \<and> (0 :: int) \<le> 999)"
    and zp: "\<not> fst (ServeHTTP status_zero (get_request []) demo_state) \<longrightarrow>
              body (writer (snd (ServeHTTP status_zero (get_request []) demo_state)))
                = body (writer demo_state)
            \<and> started (writer (snd (ServeHTTP status_zero (get_request []) demo_state))) = None"
    by blast+
  from zr w have c: "\<not> fst (ServeHTTP status_zero (get_request []) demo_state)"
    by simp
  from zp c w have d:
    "body (writer (snd (ServeHTTP status_zero (get_request []) demo_state))) = []"
    by simp
  from a b c d show ?thesis by (intro conjI)
qed

section \<open>Proofs with a node of the wrong length are not forwarded\<close>

lemma checkHashSizes_from_None:
  "checkHashSizes_from i p = None \<longleftrightarrow> (\<forall>node\<in>set p. length node = sha256_Size)"
  by (induction p arbitrary: i) auto

lemma checkHashSizes_None:
  "checkHashSizes path = None \<longleftrightarrow> (\<forall>node\<in>set (nodes path). length node = sha256_Size)"
  by (simp add: checkHashSizes_def nodes_def checkHashSizes_from_None)

text \<open>What \<open>getSTHConsistency\<close> does with a response of the backend.\<close>

lemma getSTHConsistency_response:
  assumes "parseGetSTHConsistencyRange r = Inr (first, second)" and "first \<noteq> 0"
    and "GetConsistencyProof (rpcClient c) (log_server s)
           \<lparr>cp_LogId = logID c, FirstTreeSize = first, SecondTreeSize = second\<rparr>
         = (Inr (Some rsp), b)"
    and "cp_Proof rsp = Some pf"
    and s1: "s1 = s\<lparr>log_server := b, rpc_calls := rpc_calls s @
           [GetConsistencyProofCall
              \<lparr>cp_LogId = logID c, FirstTreeSize = first, SecondTreeSize = second\<rparr>]\<rparr>"
  shows "getSTHConsistency l c r s =
    (case tree_size_if (cp_SignedLogRoot rsp) (\<lambda>t. t < second) of
       Some got \<Rightarrow>
         (Returns StatusBadRequest
            (Some (Errorf ''need tree size: %d for proof but only got: %d''
                     [ArgInt second, ArgInt got])), s1)
     | None \<Rightarrow>
         (case checkHashSizes (Hashes pf) of
            Some e \<Rightarrow>
              (Returns StatusInternalServerError
                 (Some (Errorf ''backend returned invalid proof %v: %v''
                          [ArgVal ''rsp.Proof'', ArgErr e])), s1)
          | None \<Rightarrow>
              write_json l True consistency_marshal_failed consistency_write_failed
                (GetSTHConsistencyResponse
                   (if Hashes pf = None then emptyProof else Hashes pf)) s1))"
  using assms(1-4) unfolding s1
  by (cases "tree_size_if (cp_SignedLogRoot rsp) (\<lambda>t. t < second)"; cases "checkHashSizes (Hashes pf)")
    (simp_all add: getSTHConsistency_def call_GetConsistencyProof_def)

lemma getProofByHash_response:
  assumes "FormValue r GetProofByHashArg \<noteq> []"
    and "base64_DecodeString l (FormValue r GetProofByHashArg) = Inr leafHash"
    and "ParseInt (FormValue r GetProofByHashSize) = Inr treeSize" and "1 \<le> treeSize"
    and "GetInclusionProofByHash (rpcClient c) (log_server s)
           \<lparr>ip_LogId = logID c, LeafHash = leafHash, ip_TreeSize = treeSize,
            OrderBySequence = True\<rparr>
         = (Inr (Some rsp), b)"
    and "ip_Proof rsp = Some pf # others"
    and s1: "s1 = s\<lparr>log_server := b, rpc_calls := rpc_calls s @
           [GetInclusionProofByHashCall
              \<lparr>ip_LogId = logID c, LeafHash = leafHash, ip_TreeSize = treeSize,
               OrderBySequence = True\<rparr>]\<rparr>"
  shows "getProofByHash l c r s =
    (case tree_size_if (ip_SignedLogRoot rsp) (\<lambda>t. t < treeSize) of
       Some got \<Rightarrow>
         (Returns StatusNotFound
            (Some (Errorf ''log returned tree size: %d but we expected: %d''
                     [ArgInt got, ArgInt treeSize])), s1)
     | None \<Rightarrow>
         (case checkHashSizes (Hashes pf) of
            Some e \<Rightarrow>
              (Returns StatusInternalServerError
                 (Some (Errorf ''backend returned invalid proof %v: %v''
                          [ArgVal ''rsp.Proof'', ArgErr e])), s1)
          | None \<Rightarrow>
              write_json l False proof_marshal_failed proof_write_failed
                (GetProofByHashResponse (proof_LeafIndex pf)
                   (if Hashes pf = None then emptyProof else Hashes pf)) s1))"
  using assms(1-6) unfolding s1
  by (cases "tree_size_if (ip_SignedLogRoot rsp) (\<lambda>t. t < treeSize)"; cases "checkHashSizes (Hashes pf)")
    (simp_all add: getProofByHash_def call_GetInclusionProofByHash_def Let_def)

text \<open>
  Each handler on a response that carries a proof: with a node of the wrong length it
  returns an error and writes nothing; it returns success exactly when the tree is
  large enough, every node has the length of the digest, and the response can be
  marshalled and written; what it has written then is the JSON of that proof.
\<close>

lemma consistency_hashes:
  assumes "parseGetSTHConsistencyRange r = Inr (first, second)" and "first \<noteq> 0"
    and "GetConsistencyProof (rpcClient c) (log_server s)
           \<lparr>cp_LogId = logID c, FirstTreeSize = first, SecondTreeSize = second\<rparr>
         = (Inr (Some rsp), b)"
    and "cp_Proof rsp = Some pf"
  shows "((\<exists>node\<in>set (nodes (Hashes pf)). length node \<noteq> sha256_Size) \<longrightarrow>
         (\<exists>e. fst (getSTHConsistency l c r s) =
            Returns (if tree_size_if (cp_SignedLogRoot rsp) (\<lambda>t. t < second) = None
                     then StatusInternalServerError else StatusBadRequest) (Some e))
       \<and> writer (snd (getSTHConsistency l c r s)) = writer s)
    \<and> (fst (getSTHConsistency l c r s) = Returns StatusOK None \<longleftrightarrow>
         tree_size_if (cp_SignedLogRoot rsp) (\<lambda>t. t < second) = None
       \<and> (\<forall>node\<in>set (nodes (Hashes pf)). length node = sha256_Size)
       \<and> (\<exists>d. json_Marshal l (GetSTHConsistencyResponse (forwarded pf)) = Inr d)
       \<and> \<not> broken (writer s))
    \<and> (\<forall>d. fst (getSTHConsistency l c r s) = Returns StatusOK None
          \<and> json_Marshal l (GetSTHConsistencyResponse (forwarded pf)) = Inr d \<longrightarrow>
          body (writer (snd (getSTHConsistency l c r s))) = body (writer s) @ [Data d])"
proof -
  let ?s1 = "s\<lparr>log_server := b, rpc_calls := rpc_calls s @
           [GetConsistencyProofCall
              \<lparr>cp_LogId = logID c, FirstTreeSize = first, SecondTreeSize = second\<rparr>]\<rparr>"
  let ?guard = "tree_size_if (cp_SignedLogRoot rsp) (\<lambda>t. t < second)"
  let ?x = "GetSTHConsistencyResponse (forwarded pf)"
  let ?w = "write_json l True consistency_marshal_failed consistency_write_failed ?x ?s1"
  note run = getSTHConsistency_response [OF assms refl, of l, folded forwarded_def]
  note ok = write_json_ok [of l True consistency_marshal_failed consistency_write_failed ?x ?s1]
  have sizes: "checkHashSizes (Hashes pf) = None \<longleftrightarrow>
      (\<forall>node\<in>set (nodes (Hashes pf)). length node = sha256_Size)"
    by (rule checkHashSizes_None)
  have 1: "(\<exists>e. fst (getSTHConsistency l c r s) =
            Returns (if ?guard = None then StatusInternalServerError else StatusBadRequest)
              (Some e))
       \<and> writer (snd (getSTHConsistency l c r s)) = writer s"
    if "\<exists>node\<in>set (nodes (Hashes pf)). length node \<noteq> sha256_Size"
  proof -
    from that sizes obtain e where e: "checkHashSizes (Hashes pf) = Some e"
      by (cases "checkHashSizes (Hashes pf)") auto
    show ?thesis unfolding run using e by (cases ?guard) simp_all
  qed
  have 2: "fst (getSTHConsistency l c r s) = Returns StatusOK None \<longleftrightarrow>
         ?guard = None
       \<and> (\<forall>node\<in>set (nodes (Hashes pf)). length node = sha256_Size)
       \<and> (\<exists>d. json_Marshal l ?x = Inr d)
       \<and> \<not> broken (writer s)"
    unfolding run sizes [symmetric]
    using ok
    by (cases ?guard; cases "checkHashSizes (Hashes pf)") (simp_all add: http_status_defs)
  have 3: "body (writer (snd (getSTHConsistency l c r s))) = body (writer s) @ [Data d]"
    if "fst (getSTHConsistency l c r s) = Returns StatusOK None \<and> json_Marshal l ?x = Inr d"
    for d
  proof -
    from that 2 have g: "?guard = None" "checkHashSizes (Hashes pf) = None"
      "\<not> broken (writer ?s1)" "json_Marshal l ?x = Inr d"
      by (simp_all add: sizes)
    from write_json_body(1) [OF g(4,3), of True consistency_marshal_failed
        consistency_write_failed]
    show ?thesis unfolding run using g(1,2) by simp
  qed
  from 1 2 3 show ?thesis by blast
qed

lemma inclusion_hashes:
  assumes "FormValue r GetProofByHashArg \<noteq> []"
    and "base64_DecodeString l (FormValue r GetProofByHashArg) = Inr leafHash"
    and "ParseInt (FormValue r GetProofByHashSize) = Inr treeSize" and "1 \<le> treeSize"
    and "GetInclusionProofByHash (rpcClient c) (log_server s)
           \<lparr>ip_LogId = logID c, LeafHash = leafHash, ip_TreeSize = treeSize,
            OrderBySequence = True\<rparr>
         = (Inr (Some rsp), b)"
    and "ip_Proof rsp = Some pf # others"
  shows "((\<exists>node\<in>set (nodes (Hashes pf)). length node \<noteq> sha256_Size) \<longrightarrow>
         (\<exists>e. fst (getProofByHash l c r s) =
            Returns (if tree_size_if (ip_SignedLogRoot rsp) (\<lambda>t. t < treeSize) = None
                     then StatusInternalServerError else StatusNotFound) (Some e))
       \<and> writer (snd (getProofByHash l c r s)) = writer s)
    \<and> (fst (getProofByHash l c r s) = Returns StatusOK None \<longleftrightarrow>
         tree_size_if (ip_SignedLogRoot rsp) (\<lambda>t. t < treeSize) = None
       \<and> (\<forall>node\<in>set (nodes (Hashes pf)). length node = sha256_Size)
       \<and> (\<exists>d. json_Marshal l (GetProofByHashResponse (proof_LeafIndex pf) (forwarded pf))
                = Inr d)
       \<and> \<not> broken (writer s))
    \<and> (\<forall>d. fst (getProofByHash l c r s) = Returns StatusOK None
          \<and> json_Marshal l (GetProofByHashResponse (proof_LeafIndex pf) (forwarded pf))
              = Inr d \<longrightarrow>
          body (writer (snd (getProofByHash l c r s))) = body (writer s) @ [Data d])"
proof -
  let ?s1 = "s\<lparr>log_server := b, rpc_calls := rpc_calls s @
           [GetInclusionProofByHashCall
              \<lparr>ip_LogId = logID c, LeafHash = leafHash, ip_TreeSize = treeSize,
               OrderBySequence = True\<rparr>]\<rparr>"
  let ?guard = "tree_size_if (ip_SignedLogRoot rsp) (\<lambda>t. t < treeSize)"
  let ?x = "GetProofByHashResponse (proof_LeafIndex pf) (forwarded pf)"
  note run = getProofByHash_response [OF assms refl, folded forwarded_def]
  note ok = write_json_ok [of l False proof_marshal_failed proof_write_failed ?x ?s1]
  have sizes: "checkHashSizes (Hashes pf) = None \<longleftrightarrow>
      (\<forall>node\<in>set (nodes (Hashes pf)). length node = sha256_Size)"
    by (rule checkHashSizes_None)
  have 1: "(\<exists>e. fst (getProofByHash l c r s) =
            Returns (if ?guard = None then StatusInternalServerError else StatusNotFound)
              (Some e))
       \<and> writer (snd (getProofByHash l c r s)) = writer s"
    if "\<exists>node\<in>set (nodes (Hashes pf)). length node \<noteq> sha256_Size"
  proof -
    from that sizes obtain e where e: "checkHashSizes (Hashes pf) = Some e"
      by (cases "checkHashSizes (Hashes pf)") auto
    show ?thesis unfolding run using e by (cases ?guard) simp_all
  qed
  have 2: "fst (getProofByHash l c r s) = Returns StatusOK None \<longleftrightarrow>
         ?guard = None
       \<and> (\<forall>node\<in>set (nodes (Hashes pf)). length node = sha256_Size)
       \<and> (\<exists>d. json_Marshal l ?x = Inr d)
       \<and> \<not> broken (writer s)"
    unfolding run sizes [symmetric]
    using ok
    by (cases ?guard; cases "checkHashSizes (Hashes pf)") (simp_all add: http_status_defs)
  have 3: "body (writer (snd (getProofByHash l c r s))) = body (writer s) @ [Data d]"
    if "fst (getProofByHash l c r s) = Returns StatusOK None \<and> json_Marshal l ?x = Inr d"
    for d
  proof -
    from that 2 have g: "?guard = None" "checkHashSizes (Hashes pf) = None"
      "\<not> broken (writer ?s1)" "json_Marshal l ?x = Inr d"
      by (simp_all add: sizes)
    from write_json_body(1) [OF g(4,3), of False proof_marshal_failed proof_write_failed]
    show ?thesis unfolding run using g(1,2) by simp
  qed
  from 1 2 3 show ?thesis by blast
qed


text \<open>
  C8, as the code has it. The proof is the consistency proof of the response to a
  consistency request (with \<open>first\<close> not 0), or the first proof of the response to an
  inclusion request, \<open>rsp.Proof[0]\<close>; the response may carry more proofs behind it,
  which play no part. When a node of the proof has a length other than that of a
  SHA-256 digest, the handler returns an error and writes nothing: the error is an
  internal server error, unless the signed root of the response reports a tree smaller
  than the size asked for, which the handler answers first (bad request for
  consistency, not found for inclusion). The handler returns success exactly when the
  tree is large enough, every node of the proof has the length of the digest, and
  the response can be marshalled and written to the client; what has been written then
  is the JSON of this proof.
\<close>

theorem bad_hashes_are_not_forwarded:
  "(parseGetSTHConsistencyRange r = Inr (first, second) \<and> first \<noteq> 0
    \<and> GetConsistencyProof (rpcClient c) (log_server s)
          \<lparr>cp_LogId = logID c, FirstTreeSize = first, SecondTreeSize = second\<rparr>
        = (Inr (Some rsp), b)
    \<and> cp_Proof rsp = Some pf
    \<longrightarrow>
      ((\<exists>node\<in>set (nodes (Hashes pf)). length node \<noteq> sha256_Size) \<longrightarrow>
         (\<exists>e. fst (getSTHConsistency l c r s) =
            Returns (if tree_size_if (cp_SignedLogRoot rsp) (\<lambda>t. t < second) = None
                     then StatusInternalServerError else StatusBadRequest) (Some e))
       \<and> writer (snd (getSTHConsistency l c r s)) = writer s)
    \<and> (fst (getSTHConsistency l c r s) = Returns StatusOK None \<longleftrightarrow>
         tree_size_if (cp_SignedLogRoot rsp) (\<lambda>t. t < second) = None
       \<and> (\<forall>node\<in>set (nodes (Hashes pf)). length node = sha256_Size)
       \<and> (\<exists>d. json_Marshal l (GetSTHConsistencyResponse (forwarded pf)) = Inr d)
       \<and> \<not> broken (writer s))
    \<and> (\<forall>d. fst (getSTHConsistency l c r s) = Returns StatusOK None
          \<and> json_Marshal l (GetSTHConsistencyResponse (forwarded pf)) = Inr d \<longrightarrow>
          body (writer (snd (getSTHConsistency l c r s))) = body (writer s) @ [Data d]))
 \<and> (FormValue r GetProofByHashArg \<noteq> []
    \<and> base64_DecodeString l (FormValue r GetProofByHashArg) = Inr leafHash
    \<and> ParseInt (FormValue r GetProofByHashSize) = Inr treeSize \<and> 1 \<le> treeSize
    \<and> GetInclusionProofByHash (rpcClient c) (log_server s)
          \<lparr>ip_LogId = logID c, LeafHash = leafHash, ip_TreeSize = treeSize,
           OrderBySequence = True\<rparr>
        = (Inr (Some irsp), ib)
    \<and> ip_Proof irsp = Some ipf # others
    \<longrightarrow>
      ((\<exists>node\<in>set (nodes (Hashes ipf)). length node \<noteq> sha256_Size) \<longrightarrow>
         (\<exists>e. fst (getProofByHash l c r s) =
            Returns (if tree_size_if (ip_SignedLogRoot irsp) (\<lambda>t. t < treeSize) = None
                     then StatusInternalServerError else StatusNotFound) (Some e))
       \<and> writer (snd (getProofByHash l c r s)) = writer s)
    \<and> (fst (getProofByHash l c r s) = Returns StatusOK None \<longleftrightarrow>
         tree_size_if (ip_SignedLogRoot irsp) (\<lambda>t. t < treeSize) = None
       \<and> (\<forall>node\<in>set (nodes (Hashes ipf)). length node = sha256_Size)
       \<and> (\<exists>d. json_Marshal l (GetProofByHashResponse (proof_LeafIndex ipf) (forwarded ipf))
                = Inr d)
       \<and> \<not> broken (writer s))
    \<and> (\<forall>d. fst (getProofByHash l c r s) = Returns StatusOK None
          \<and> json_Marshal l (GetProofByHashResponse (proof_LeafIndex ipf) (forwarded ipf))
              = Inr d \<longrightarrow>
          body (writer (snd (getProofByHash l c r s))) = body (writer s) @ [Data d]))"
proof (rule conjI; rule impI)
  assume "parseGetSTHConsistencyRange r = Inr (first, second) \<and> first \<noteq> 0
    \<and> GetConsistencyProof (rpcClient c) (log_server s)
          \<lparr>cp_LogId = logID c, FirstTreeSize = first, SecondTreeSize = second\<rparr>
        = (Inr (Some rsp), b)
    \<and> cp_Proof rsp = Some pf"
  then have h: "parseGetSTHConsistencyRange r = Inr (first, second)" "first \<noteq> 0"
    "GetConsistencyProof (rpcClient c) (log_server s)
          \<lparr>cp_LogId = logID c, FirstTreeSize = first, SecondTreeSize = second\<rparr>
        = (Inr (Some rsp), b)"
    "cp_Proof rsp = Some pf"
    by simp_all
  from consistency_hashes [OF h, of l]
  show "((\<exists>node\<in>set (nodes (Hashes pf)). length node \<noteq> sha256_Size) \<longrightarrow>
         (\<exists>e. fst (getSTHConsistency l c r s) =
            Returns (if tree_size_if (cp_SignedLogRoot rsp) (\<lambda>t. t < second) = None
                     then StatusInternalServerError else StatusBadRequest) (Some e))
       \<and> writer (snd (getSTHConsistency l c r s)) = writer s)
    \<and> (fst (getSTHConsistency l c r s) = Returns StatusOK None \<longleftrightarrow>
         tree_size_if (cp_SignedLogRoot rsp) (\<lambda>t. t < second) = None
       \<and> (\<forall>node\<in>set (nodes (Hashes pf)). length node = sha256_Size)
       \<and> (\<exists>d. json_Marshal l (GetSTHConsistencyResponse (forwarded pf)) = Inr d)
       \<and> \<not> broken (writer s))
    \<and> (\<forall>d. fst (getSTHConsistency l c r s) = Returns StatusOK None
          \<and> json_Marshal l (GetSTHConsistencyResponse (forwarded pf)) = Inr d \<longrightarrow>
          body (writer (snd (getSTHConsistency l c r s))) = body (writer s) @ [Data d])" .
next
  assume "FormValue r GetProofByHashArg \<noteq> []
    \<and> base64_DecodeString l (FormValue r GetProofByHashArg) = Inr leafHash
    \<and> ParseInt (FormValue r GetProofByHashSize) = Inr treeSize \<and> 1 \<le> treeSize
    \<and> GetInclusionProofByHash (rpcClient c) (log_server s)
          \<lparr>ip_LogId = logID c, LeafHash = leafHash, ip_TreeSize = treeSize,
           OrderBySequence = True\<rparr>
        = (Inr (Some irsp), ib)
    \<and> ip_Proof irsp = Some ipf # others"
  then have h: "FormValue r GetProofByHashArg \<noteq> []"
    "base64_DecodeString l (FormValue r GetProofByHashArg) = Inr leafHash"
    "ParseInt (FormValue r GetProofByHashSize) = Inr treeSize" "1 \<le> treeSize"
    "GetInclusionProofByHash (rpcClient c) (log_server s)
          \<lparr>ip_LogId = logID c, LeafHash = leafHash, ip_TreeSize = treeSize,
           OrderBySequence = True\<rparr>
        = (Inr (Some irsp), ib)"
    "ip_Proof irsp = Some ipf # others"
    by simp_all
  from inclusion_hashes [OF h]
  show "((\<exists>node\<in>set (nodes (Hashes ipf)). length node \<noteq> sha256_Size) \<longrightarrow>
         (\<exists>e. fst (getProofByHash l c r s) =
            Returns (if tree_size_if (ip_SignedLogRoot irsp) (\<lambda>t. t < treeSize) = None
                     then StatusInternalServerError else StatusNotFound) (Some e))
       \<and> writer (snd (getProofByHash l c r s)) = writer s)
    \<and> (fst (getProofByHash l c r s) = Returns StatusOK None \<longleftrightarrow>
         tree_size_if (ip_SignedLogRoot irsp) (\<lambda>t. t < treeSize) = None
       \<and> (\<forall>node\<in>set (nodes (Hashes ipf)). length node = sha256_Size)
       \<and> (\<exists>d. json_Marshal l (GetProofByHashResponse (proof_LeafIndex ipf) (forwarded ipf))
                = Inr d)
       \<and> \<not> broken (writer s))
    \<and> (\<forall>d. fst (getProofByHash l c r s) = Returns StatusOK None
          \<and> json_Marshal l (GetProofByHashResponse (proof_LeafIndex ipf) (forwarded ipf))
              = Inr d \<longrightarrow>
          body (writer (snd (getProofByHash l c r s))) = body (writer s) @ [Data d])" .
qed

theorem bad_hashes_are_not_forwarded_witness:
  "(\<exists>e. fst (getSTHConsistency demo_lib rootless_hub
            (get_request [(''first'', ''1''), (''second'', ''2'')]) demo_state)
          = Returns 500 (Some e))
 \<and> writer (snd (getSTHConsistency demo_lib rootless_hub
        (get_request [(''first'', ''1''), (''second'', ''2'')]) demo_state)) = demo_writer
 \<and> (\<exists>e. fst (getProofByHash demo_lib rootless_hub
            (get_request [(''hash'', ''aGFzaA==''), (''tree_size'', ''2'')]) demo_state)
          = Returns 500 (Some e))
 \<and> writer (snd (getProofByHash demo_lib rootless_hub
        (get_request [(''hash'', ''aGFzaA==''), (''tree_size'', ''2'')]) demo_state))
      = demo_writer"
proof -
  let ?r1 = "get_request [(''first'', ''1''), (''second'', ''2'')]"
  let ?r2 = "get_request [(''hash'', ''aGFzaA==''), (''tree_size'', ''2'')]"
  let ?rsp = "\<lparr>cp_Proof = Some short_node_proof, cp_SignedLogRoot = None\<rparr>"
  let ?irsp = "\<lparr>ip_Proof = [Some short_node_proof], ip_SignedLogRoot = None\<rparr>"
  have bad: "\<exists>node\<in>set (nodes (Hashes short_node_proof)). length node \<noteq> sha256_Size"
    by (simp add: nodes_def short_node_proof_def sha256_Size_def)
  have h1: "parseGetSTHConsistencyRange ?r1 = Inr (1, 2) \<and> (1::int) \<noteq> 0
    \<and> GetConsistencyProof (rpcClient rootless_hub) (log_server demo_state)
          \<lparr>cp_LogId = logID rootless_hub, FirstTreeSize = 1, SecondTreeSize = 2\<rparr>
        = (Inr (Some ?rsp), 1)
    \<and> cp_Proof ?rsp = Some short_node_proof"
    by (simp add: parseGetSTHConsistencyRange_def get_request_def api_param_defs ParseInt_def
          digit_of_def in_int64_def rootless_hub_def demo_hub_def demo_state_def)
  have h2: "FormValue ?r2 GetProofByHashArg \<noteq> []
    \<and> base64_DecodeString demo_lib (FormValue ?r2 GetProofByHashArg) = Inr (bytes_of ''aGFzaA=='')
    \<and> ParseInt (FormValue ?r2 GetProofByHashSize) = Inr 2 \<and> (1::int) \<le> 2
    \<and> GetInclusionProofByHash (rpcClient rootless_hub) (log_server demo_state)
          \<lparr>ip_LogId = logID rootless_hub, LeafHash = bytes_of ''aGFzaA=='', ip_TreeSize = 2,
           OrderBySequence = True\<rparr>
        = (Inr (Some ?irsp), 1)
    \<and> ip_Proof ?irsp = Some short_node_proof # []"
    by (simp add: get_request_def api_param_defs ParseInt_def digit_of_def in_int64_def
          rootless_hub_def demo_hub_def demo_state_def demo_lib_def)
  note thm1 = bad_hashes_are_not_forwarded
    [where r = ?r1 and first = 1 and second = 2 and c = rootless_hub and s = demo_state
       and rsp = ?rsp and b = 1 and pf = short_node_proof and l = demo_lib,
     THEN conjunct1, rule_format, OF h1, THEN conjunct1, rule_format, OF bad]
  note thm2 = bad_hashes_are_not_forwarded
    [where r = ?r2 and c = rootless_hub and s = demo_state and l = demo_lib
       and leafHash = "bytes_of ''aGFzaA==''" and treeSize = 2
       and irsp = ?irsp and ib = 1 and ipf = short_node_proof and others = "[]",
     THEN conjunct2, rule_format, OF h2, THEN conjunct1, rule_format, OF bad]
  have w: "writer demo_state = demo_writer" by (simp add: demo_state_def)
  show ?thesis
    using thm1 thm2 by (simp add: tree_size_if_def w http_status_defs)
qed


text \<open>
  C8 as it is written fails in two places. Where the signed root reports a tree that
  is too small, the node of one byte is answered with a bad request (consistency) and
  with not found (inclusion), not with an internal server error. And an inclusion
  proof with the node of one byte that comes second in the response is not looked at:
  the handler returns success and forwards the first proof.
\<close>

theorem bad_hashes_small_tree_counterexample:
  "checkHashSizes (Hashes short_node_proof) \<noteq> None
 \<and> getSTHConsistency demo_lib small_tree_hub
      (get_request [(''first'', ''1''), (''second'', ''2'')]) demo_state =
     (Returns 400
        (Some (Errorf ''need tree size: %d for proof but only got: %d'' [ArgInt 2, ArgInt 1])),
      demo_state\<lparr>log_server := 1, rpc_calls :=
        [GetConsistencyProofCall \<lparr>cp_LogId = 7, FirstTreeSize = 1, SecondTreeSize = 2\<rparr>]\<rparr>)
 \<and> fst (getProofByHash demo_lib small_tree_hub
      (get_request [(''hash'', ''aGFzaA==''), (''tree_size'', ''2'')]) demo_state) =
     Returns 404
       (Some (Errorf ''log returned tree size: %d but we expected: %d'' [ArgInt 1, ArgInt 2]))
 \<and> fst (getProofByHash demo_lib two_proofs_hub
      (get_request [(''hash'', ''aGFzaA==''), (''tree_size'', ''2'')]) demo_state) =
     Returns 200 None
 \<and> body (writer (snd (getProofByHash demo_lib two_proofs_hub
      (get_request [(''hash'', ''aGFzaA==''), (''tree_size'', ''2'')]) demo_state))) =
     [Data [123, 125]]"
  by (simp add: checkHashSizes_def short_node_proof_def sound_proof_def sha256_Size_def
        getSTHConsistency_def getProofByHash_def parseGetSTHConsistencyRange_def
        get_request_def api_param_defs ParseInt_def digit_of_def in_int64_def
        call_GetConsistencyProof_def call_GetInclusionProofByHash_def
        small_tree_hub_def two_proofs_hub_def demo_hub_def demo_state_def demo_lib_def
        demo_writer_def small_root_def tree_size_if_def http_status_defs
        write_json_def Write_def Header_Set_def Let_def)

section \<open>The range export\<close>

lemma wrap64_id: "in_int64 x \<Longrightarrow> wrap64 x = x"
  by (simp add: in_int64_def wrap64_def)

lemma ParseInt_in_int64: "ParseInt s = Inr v \<Longrightarrow> in_int64 v"
  by (auto simp: ParseInt_def Let_def split: list.splits if_splits option.splits)

lemma parseGetEntriesRange_valid:
  "parseGetEntriesRange r m = Inr (start, end) \<Longrightarrow> 0 \<le> start \<and> in_int64 start"
  by (auto simp: parseGetEntriesRange_def Let_def dest: ParseInt_in_int64
        split: sum.splits if_splits)

text \<open>
  The first loop over the leaves: it ends well exactly when every leaf is there and
  has the index of its place, counted from \<open>start\<close>; it panics exactly when a nil
  leaf comes first.
\<close>

lemma check_indices_ok:
  "check_indices start end k lv = Inr () \<longleftrightarrow>
     (\<forall>i<length lv. \<exists>leaf. lv ! i = Some leaf \<and> LeafIndex leaf = add64 start (int (k + i)))"
proof (induction lv arbitrary: k)
  case Nil
  show ?case by simp
next
  case (Cons x xs)
  show ?case
  proof (cases x)
    case None
    then show ?thesis by auto
  next
    case (Some leaf)
    have "(\<forall>i<length (x # xs). \<exists>lf. (x # xs) ! i = Some lf
            \<and> LeafIndex lf = add64 start (int (k + i))) \<longleftrightarrow>
        LeafIndex leaf = add64 start (int k)
        \<and> (\<forall>i<length xs. \<exists>lf. xs ! i = Some lf \<and> LeafIndex lf = add64 start (int (Suc k + i)))"
      using Some by (simp add: All_less_Suc2 add.commute add.left_commute)
    then show ?thesis using Cons.IH [of "Suc k"] Some by simp
  qed
qed

lemma check_indices_nil:
  "check_indices start end k lv = Inl None \<longleftrightarrow>
     (\<exists>j<length lv. lv ! j = None
        \<and> (\<forall>i<j. \<exists>leaf. lv ! i = Some leaf \<and> LeafIndex leaf = add64 start (int (k + i))))"
proof (induction lv arbitrary: k)
  case Nil
  show ?case by simp
next
  case (Cons x xs)
  show ?case
  proof (cases x)
    case None
    then show ?thesis by auto
  next
    case (Some leaf)
    have "(\<exists>j<length (x # xs). (x # xs) ! j = None
            \<and> (\<forall>i<j. \<exists>lf. (x # xs) ! i = Some lf \<and> LeafIndex lf = add64 start (int (k + i))))
        \<longleftrightarrow>
        LeafIndex leaf = add64 start (int k)
        \<and> (\<exists>j<length xs. xs ! j = None
             \<and> (\<forall>i<j. \<exists>lf. xs ! i = Some lf \<and> LeafIndex lf = add64 start (int (Suc k + i))))"
      using Some by (simp add: Ex_less_Suc2 All_less_Suc2 add.commute add.left_commute) blast
    then show ?thesis using Cons.IH [of "Suc k"] Some by simp
  qed
qed


lemma getEntries_response:
  assumes "parseGetEntriesRange r (max_entries c) = Inr (start, end)"
    and "GetLeavesByRange (rpcClient c) (log_server s)
           \<lparr>lbr_LogId = logID c, StartIndex = start, Count = sub64 (add64 end 1) start\<rparr>
         = (Inr (Some rsp), b)"
    and s1: "s1 = s\<lparr>log_server := b, rpc_calls := rpc_calls s @
           [GetLeavesByRangeCall
              \<lparr>lbr_LogId = logID c, StartIndex = start,
               Count = sub64 (add64 end 1) start\<rparr>]\<rparr>"
  shows "getEntries l c r s =
    (case tree_size_if (lbr_SignedLogRoot rsp) (\<lambda>t. t \<le> start) of
       Some got \<Rightarrow>
         (Returns StatusBadRequest
            (Some (Errorf ''need tree size: %d to get leaves but only got: %d''
                     [ArgInt got, ArgInt start])), s1)
     | None \<Rightarrow>
         if int (length (Leaves rsp)) > sub64 (add64 end 1) start
         then (Returns StatusInternalServerError
                 (Some (Errorf ''backend returned too many leaves: %d vs [%d,%d]''
                          [ArgInt (int (length (Leaves rsp))), ArgInt start, ArgInt end])), s1)
         else
           (case check_indices start end 0 (Leaves rsp) of
              Inl None \<Rightarrow> (Panics, s1)
            | Inl (Some e) \<Rightarrow> (Returns StatusInternalServerError (Some e), s1)
            | Inr u \<Rightarrow>
                (case collect_entries l (hubPrefix c) None (Leaves rsp) of
                   Inl None \<Rightarrow> (Panics, s1)
                 | Inl (Some e) \<Rightarrow> (Returns StatusInternalServerError (Some e), s1)
                 | Inr entries \<Rightarrow>
                     write_json l False entries_marshal_failed entries_write_failed
                       (GetEntriesResponse entries) s1)))"
  using assms(1,2) unfolding s1
  by (simp add: getEntries_def call_GetLeavesByRange_def Let_def max_entries_def)

text \<open>
  C4, as the code has it. When the backend has answered the ranged read of a valid
  request with leaves that are more than the count asked for, or of which one does not
  have the index of its place in the sequence \<open>start\<close>, \<open>start + 1\<close>, ..., the handler
  does not return success and writes nothing. It returns an internal server error,
  with two exceptions: when the signed root of the response reports a tree size of at
  most \<open>start\<close>, the handler answers that first, with a bad request; and when the
  leaves are within the count and a nil leaf comes first, the handler panics at the
  nil leaf. A handler that returns success had a response within the count, with
  every leaf there and with contiguous indices.
\<close>

theorem getEntries_rejects_bad_leaves:
  assumes "parseGetEntriesRange r (max_entries c) = Inr (start, end)"
    and "GetLeavesByRange (rpcClient c) (log_server s)
           \<lparr>lbr_LogId = logID c, StartIndex = start, Count = sub64 (add64 end 1) start\<rparr>
         = (Inr (Some rsp), b)"
  shows "(int (length (Leaves rsp)) > sub64 (add64 end 1) start
          \<or> (\<exists>i<length (Leaves rsp). \<exists>leaf.
                Leaves rsp ! i = Some leaf \<and> LeafIndex leaf \<noteq> add64 start (int i))
        \<longrightarrow>
          writer (snd (getEntries l c r s)) = writer s
        \<and> (tree_size_if (lbr_SignedLogRoot rsp) (\<lambda>t. t \<le> start) \<noteq> None \<longrightarrow>
             (\<exists>e. fst (getEntries l c r s) = Returns StatusBadRequest (Some e)))
        \<and> (tree_size_if (lbr_SignedLogRoot rsp) (\<lambda>t. t \<le> start) = None
             \<and> int (length (Leaves rsp)) \<le> sub64 (add64 end 1) start
             \<and> nil_leaf_first start (Leaves rsp) \<longrightarrow>
             fst (getEntries l c r s) = Panics)
        \<and> (tree_size_if (lbr_SignedLogRoot rsp) (\<lambda>t. t \<le> start) = None
             \<and> \<not> (int (length (Leaves rsp)) \<le> sub64 (add64 end 1) start
                   \<and> nil_leaf_first start (Leaves rsp)) \<longrightarrow>
             (\<exists>e. fst (getEntries l c r s) = Returns StatusInternalServerError (Some e))))
    \<and> (fst (getEntries l c r s) = Returns StatusOK None
        \<longrightarrow>
          int (length (Leaves rsp)) \<le> sub64 (add64 end 1) start
        \<and> (\<forall>i<length (Leaves rsp). \<exists>leaf.
              Leaves rsp ! i = Some leaf \<and> LeafIndex leaf = add64 start (int i)))"
proof -
  let ?lv = "Leaves rsp"
  let ?count = "sub64 (add64 end 1) start"
  let ?guard = "tree_size_if (lbr_SignedLogRoot rsp) (\<lambda>t. t \<le> start)"
  note run = getEntries_response [OF assms(1,2) refl, of l]
  note ok = check_indices_ok [of start "end" 0 ?lv, simplified]
  note nil = check_indices_nil [of start "end" 0 ?lv, simplified, folded nil_leaf_first_def]
  show ?thesis
  proof (intro conjI impI)
    assume bad: "int (length ?lv) > ?count
      \<or> (\<exists>i<length ?lv. \<exists>leaf. ?lv ! i = Some leaf \<and> LeafIndex leaf \<noteq> add64 start (int i))"
    have stop: "int (length ?lv) > ?count \<or> check_indices start end 0 ?lv \<noteq> Inr ()"
    proof (cases "int (length ?lv) > ?count")
      case True
      then show ?thesis by simp
    next
      case False
      with bad obtain i leaf where
        "i < length ?lv" "?lv ! i = Some leaf" "LeafIndex leaf \<noteq> add64 start (int i)"
        by auto
      then have "\<not> (\<forall>i<length ?lv. \<exists>leaf. ?lv ! i = Some leaf
          \<and> LeafIndex leaf = add64 start (int i))"
        by auto
      then show ?thesis using ok by simp
    qed
    show "writer (snd (getEntries l c r s)) = writer s"
      unfolding run using stop
      by (cases ?guard; cases "check_indices start end 0 ?lv")
         (auto split: option.splits)
    show "\<exists>e. fst (getEntries l c r s) = Returns StatusBadRequest (Some e)"
      if "?guard \<noteq> None"
      unfolding run using that by (cases ?guard) auto
    show "fst (getEntries l c r s) = Panics"
      if "?guard = None \<and> int (length ?lv) \<le> ?count \<and> nil_leaf_first start ?lv"
      unfolding run using that nil by simp
    show "\<exists>e. fst (getEntries l c r s) = Returns StatusInternalServerError (Some e)"
      if h: "?guard = None \<and> \<not> (int (length ?lv) \<le> ?count \<and> nil_leaf_first start ?lv)"
    proof (cases "int (length ?lv) > ?count")
      case True
      with h show ?thesis unfolding run by simp
    next
      case False
      with h nil have n: "check_indices start end 0 ?lv \<noteq> Inl None" by simp
      from False stop have "check_indices start end 0 ?lv \<noteq> Inr ()" by simp
      with n obtain e where "check_indices start end 0 ?lv = Inl (Some e)"
        by (cases "check_indices start end 0 ?lv") auto
      with h False show ?thesis unfolding run by simp
    qed
  next
    assume good: "fst (getEntries l c r s) = Returns StatusOK None"
    have "\<not> int (length ?lv) > ?count \<and> check_indices start end 0 ?lv = Inr ()"
      using good unfolding run
      by (cases ?guard; cases "check_indices start end 0 ?lv")
        (auto simp: http_status_defs split: if_splits option.splits)
    then show "int (length ?lv) \<le> ?count"
      and "\<forall>i<length ?lv. \<exists>leaf. ?lv ! i = Some leaf \<and> LeafIndex leaf = add64 start (int i)"
      using ok by auto
  qed
qed


theorem getEntries_rejects_bad_leaves_witness:
  "(\<exists>e. fst (getEntries demo_lib greedy_hub
            (get_request [(''start'', ''0''), (''end'', ''0'')]) demo_state)
          = Returns 500 (Some e))
 \<and> writer (snd (getEntries demo_lib greedy_hub
        (get_request [(''start'', ''0''), (''end'', ''0'')]) demo_state)) = demo_writer"
proof -
  let ?r = "get_request [(''start'', ''0''), (''end'', ''0'')]"
  let ?rsp = "\<lparr>Leaves = two_leaves, lbr_SignedLogRoot = None, Skew = None\<rparr>"
  have cnt: "sub64 (add64 0 1) 0 = 1"
    by (simp add: sub64_def add64_def wrap64_def)
  have 1: "parseGetEntriesRange ?r (max_entries greedy_hub) = Inr (0, 0)"
    by (simp add: parseGetEntriesRange_def get_request_def api_param_defs ParseInt_def
          digit_of_def in_int64_def max_entries_def greedy_hub_def demo_hub_def
          defaultMaxGetEntries_def sub64_def add64_def wrap64_def)
  have 2: "GetLeavesByRange (rpcClient greedy_hub) (log_server demo_state)
           \<lparr>lbr_LogId = logID greedy_hub, StartIndex = 0, Count = sub64 (add64 0 1) 0\<rparr>
         = (Inr (Some ?rsp), 1)"
    by (simp add: greedy_hub_def demo_hub_def demo_state_def)
  have len: "length (Leaves ?rsp) = 2" by (simp add: two_leaves_def)
  have bad: "int (length (Leaves ?rsp)) > sub64 (add64 0 1) 0
      \<or> (\<exists>i<length (Leaves ?rsp). \<exists>leaf.
            Leaves ?rsp ! i = Some leaf \<and> LeafIndex leaf \<noteq> add64 0 (int i))"
    by (simp only: len cnt) simp
  note t = getEntries_rejects_bad_leaves [OF 1 2, of demo_lib, THEN conjunct1, rule_format,
      OF bad]
  have g: "tree_size_if (lbr_SignedLogRoot ?rsp) (\<lambda>t. t \<le> 0) = None
      \<and> \<not> (int (length (Leaves ?rsp)) \<le> sub64 (add64 0 1) 0
            \<and> nil_leaf_first 0 (Leaves ?rsp))"
    by (simp only: len cnt) (simp add: tree_size_if_def)
  from t have a: "writer (snd (getEntries demo_lib greedy_hub ?r demo_state)) = writer demo_state"
    by (rule conjunct1)
  from t have "tree_size_if (lbr_SignedLogRoot ?rsp) (\<lambda>t. t \<le> 0) = None
      \<and> \<not> (int (length (Leaves ?rsp)) \<le> sub64 (add64 0 1) 0
            \<and> nil_leaf_first 0 (Leaves ?rsp)) \<longrightarrow>
      (\<exists>e. fst (getEntries demo_lib greedy_hub ?r demo_state)
              = Returns StatusInternalServerError (Some e))"
    by blast
  with g have b: "\<exists>e. fst (getEntries demo_lib greedy_hub ?r demo_state)
              = Returns StatusInternalServerError (Some e)"
    by (rule rev_mp)
  have w: "writer demo_state = demo_writer" by (simp add: demo_state_def)
  from a b w show ?thesis by (simp add: http_status_defs)
qed

text \<open>
  C4 as it is written fails in two places. Where the signed root reports a tree size
  of at most \<open>start\<close>, two leaves for a request of one are answered with a bad
  request, not with an internal server error. Where a nil leaf comes before a leaf
  with a wrong index, the handler panics and returns no error at all.
\<close>

theorem getEntries_empty_tree_counterexample:
  "parseGetEntriesRange (get_request [(''start'', ''0''), (''end'', ''0'')])
     (max_entries empty_tree_hub) = Inr (0, 0)
 \<and> length two_leaves = 2
 \<and> getEntries demo_lib empty_tree_hub
      (get_request [(''start'', ''0''), (''end'', ''0'')]) demo_state =
     (Returns 400
        (Some (Errorf ''need tree size: %d to get leaves but only got: %d''
                 [ArgInt 0, ArgInt 0])),
      demo_state\<lparr>log_server := 1, rpc_calls :=
        [GetLeavesByRangeCall \<lparr>lbr_LogId = 7, StartIndex = 0, Count = 1\<rparr>]\<rparr>)
 \<and> parseGetEntriesRange (get_request [(''start'', ''0''), (''end'', ''9'')])
     (max_entries nil_leaf_hub) = Inr (0, 9)
 \<and> getEntries demo_lib nil_leaf_hub
      (get_request [(''start'', ''0''), (''end'', ''9'')]) demo_state =
     (Panics,
      demo_state\<lparr>log_server := 1, rpc_calls :=
        [GetLeavesByRangeCall \<lparr>lbr_LogId = 7, StartIndex = 0, Count = 10\<rparr>]\<rparr>)"
  by (simp add: getEntries_def parseGetEntriesRange_def get_request_def api_param_defs
        ParseInt_def digit_of_def in_int64_def Let_def defaultMaxGetEntries_def
        max_entries_def sub64_def add64_def wrap64_def call_GetLeavesByRange_def
        empty_tree_hub_def nil_leaf_hub_def demo_hub_def demo_state_def empty_root_def
        two_leaves_def tree_size_if_def http_status_defs)

section \<open>The clamp of the range export\<close>

text \<open>
  Where the span \<open>end - start + 1\<close> is an \<open>int64\<close> and exceeds a positive page size,
  the range is clamped to the page size, anchored at \<open>start\<close>, and the count of the
  ranged read is the page size.
\<close>

lemma parseGetEntriesRange_clamps:
  assumes "ParseInt (FormValue r GetEntriesStart) = Inr a"
    and "ParseInt (FormValue r GetEntriesEnd) = Inr z"
    and "0 \<le> a" and "a \<le> z" and "0 < m" and "m < z - a + 1" and "z - a + 1 < 2 ^ 63"
  shows "parseGetEntriesRange r m = Inr (a, a + m - 1)"
    and "sub64 (add64 (a + m - 1) 1) a = m"
proof -
  have ra: "in_int64 a" and rz: "in_int64 z"
    using assms(1,2) by (auto dest: ParseInt_in_int64)
  have 1: "sub64 z a = z - a"
    unfolding sub64_def using ra rz assms(3,4) by (intro wrap64_id) (simp add: in_int64_def)
  have 2: "add64 (z - a) 1 = z - a + 1"
    unfolding add64_def using assms(3,4,7) by (intro wrap64_id) (simp add: in_int64_def)
  have 3: "add64 a m = a + m"
    unfolding add64_def using ra rz assms(3-6) by (intro wrap64_id) (simp add: in_int64_def)
  have 4: "sub64 (a + m) 1 = a + m - 1"
    unfolding sub64_def using ra rz assms(3-6) by (intro wrap64_id) (simp add: in_int64_def)
  show "parseGetEntriesRange r m = Inr (a, a + m - 1)"
    using assms by (simp add: parseGetEntriesRange_def Let_def 1 2 3 4)
  have 5: "add64 (a + m - 1) 1 = a + m"
    using wrap64_id [of "a + m"] ra rz assms(3-6) by (simp add: add64_def in_int64_def)
  have 6: "sub64 (a + m) a = m"
    using wrap64_id [of m] ra rz assms(3-6) by (simp add: sub64_def in_int64_def)
  show "sub64 (add64 (a + m - 1) 1) a = m" by (simp add: 5 6)
qed

text \<open>
  C7 fails on the code for the widest range: for \<open>start = 0\<close> and
  \<open>end = 9223372036854775807\<close> the span is \<open>2 ^ 63\<close>, more than the page size of 50,
  but \<open>end - start + 1\<close> wraps around to \<open>- (2 ^ 63)\<close>, the test
  \<open>count > maxRange\<close> fails, and the range is not clamped: \<open>getEntries\<close> asks the
  backend for a count of \<open>- (2 ^ 63)\<close> leaves, and answers the backend of the example,
  which sends no leaf, with the error of too many leaves.
\<close>

theorem getEntries_widest_range_not_clamped:
  "max_entries paged_hub = 50
 \<and> parseGetEntriesRange
      (get_request [(''start'', ''0''), (''end'', ''9223372036854775807'')]) 50
     = Inr (0, 9223372036854775807)
 \<and> getEntries demo_lib paged_hub
      (get_request [(''start'', ''0''), (''end'', ''9223372036854775807'')]) demo_state
     = (Returns 500
          (Some (Errorf ''backend returned too many leaves: %d vs [%d,%d]''
                   [ArgInt 0, ArgInt 0, ArgInt 9223372036854775807])),
        demo_state\<lparr>log_server := 1, rpc_calls :=
          [GetLeavesByRangeCall
             \<lparr>lbr_LogId = 7, StartIndex = 0, Count = - 9223372036854775808\<rparr>]\<rparr>)"
proof -
  let ?r = "get_request [(''start'', ''0''), (''end'', ''9223372036854775807'')]"
  have p: "parseGetEntriesRange ?r 50 = Inr (0, 9223372036854775807)"
    by (simp add: parseGetEntriesRange_def get_request_def api_param_defs ParseInt_def
          digit_of_def in_int64_def Let_def sub64_def add64_def wrap64_def)
  have m: "max_entries paged_hub = 50"
    by (simp add: max_entries_def paged_hub_def demo_hub_def)
  have cnt: "sub64 (add64 9223372036854775807 1) 0 = - 9223372036854775808"
    by (simp add: sub64_def add64_def wrap64_def)
  have mx: "(if MaxGetEntries (opts paged_hub) = 0 then defaultMaxGetEntries
             else MaxGetEntries (opts paged_hub)) = 50"
    using m by (simp add: max_entries_def)
  have "getEntries demo_lib paged_hub ?r demo_state
     = (Returns 500
          (Some (Errorf ''backend returned too many leaves: %d vs [%d,%d]''
                   [ArgInt 0, ArgInt 0, ArgInt 9223372036854775807])),
        demo_state\<lparr>log_server := 1, rpc_calls :=
          [GetLeavesByRangeCall
             \<lparr>lbr_LogId = 7, StartIndex = 0, Count = - 9223372036854775808\<rparr>]\<rparr>)"
    unfolding getEntries_def mx Let_def p
    by (simp add: cnt call_GetLeavesByRange_def paged_hub_def demo_hub_def demo_client_def
          demo_state_def tree_size_if_def http_status_defs)
  with p m show ?thesis by simp
qed

section \<open>The submission handler and the leaf encoder\<close>

text \<open>
  C6. \<open>addLogHead\<close> hands \<open>tls.Marshal\<close> a pointer to the entry it has built. With a
  library that answers a pointer with an error, no request gets a leaf encoded:
  \<open>addLogHead\<close> returns an error for every request, never success, and sends nothing
  to the backend; a request that passes the lookup of the source and the check of the
  signature is answered with 400 and the error of the encoder.
\<close>

theorem addLogHead_encodes_no_leaf:
  assumes "refuses_pointers l"
  shows "(\<exists>status e. fst (addLogHead l c r s) = Returns status (Some e))
    \<and> snd (addLogHead l c r s) = s
    \<and> (\<forall>bd req ci.
          Body r = Inr bd \<and> json_Unmarshal l bd = Inr req
        \<and> cryptoMap c (req_SourceURL req) = Some ci
        \<and> Verify l (pubKey ci) (hasher ci) (req_HeadData req) (req_Signature req) = None
        \<longrightarrow> (\<exists>e. tls_Marshal l (ByPointer \<lparr>SourceURL = bytes_of (req_SourceURL req),
                       HeadData = req_HeadData req, Signature = req_Signature req\<rparr>) = Inl e
                \<and> addLogHead l c r s =
                    (Returns StatusBadRequest
                       (Some (Errorf ''failed to create hub leaf: %v'' [ArgErr e])), s)))"
proof -
  have refused: "\<exists>e. tls_Marshal l (ByPointer x) = Inl e" for x
    using assms by (simp add: refuses_pointers_def)
  have 1: "\<exists>status e. fst (addLogHead l c r s) = Returns status (Some e)"
  proof (cases "Body r")
    case (Inl e1)
    then show ?thesis by (simp add: addLogHead_def)
  next
    case (Inr bd1)
    show ?thesis
    proof (cases "json_Unmarshal l bd1")
      case (Inl e2)
      with Inr show ?thesis by (simp add: addLogHead_def)
    next
      case req1: (Inr req1)
      show ?thesis
      proof (cases "cryptoMap c (req_SourceURL req1)")
        case None
        with Inr req1 show ?thesis by (simp add: addLogHead_def)
      next
        case (Some ci1)
        show ?thesis
        proof (cases "Verify l (pubKey ci1) (hasher ci1) (req_HeadData req1) (req_Signature req1)")
          case bad: (Some e4)
          with Inr req1 Some show ?thesis by (simp add: addLogHead_def)
        next
          case ok: None
          from refused obtain e5 where
            "tls_Marshal l (ByPointer \<lparr>SourceURL = bytes_of (req_SourceURL req1),
               HeadData = req_HeadData req1, Signature = req_Signature req1\<rparr>) = Inl e5"
            by blast
          with Inr req1 Some ok show ?thesis by (simp add: addLogHead_def)
        qed
      qed
    qed
  qed
  have 2: "snd (addLogHead l c r s) = s"
  proof (cases "Body r")
    case (Inl e1)
    then show ?thesis by (simp add: addLogHead_def)
  next
    case (Inr bd1)
    show ?thesis
    proof (cases "json_Unmarshal l bd1")
      case (Inl e2)
      with Inr show ?thesis by (simp add: addLogHead_def)
    next
      case req1: (Inr req1)
      show ?thesis
      proof (cases "cryptoMap c (req_SourceURL req1)")
        case None
        with Inr req1 show ?thesis by (simp add: addLogHead_def)
      next
        case (Some ci1)
        show ?thesis
        proof (cases "Verify l (pubKey ci1) (hasher ci1) (req_HeadData req1) (req_Signature req1)")
          case bad: (Some e4)
          with Inr req1 Some show ?thesis by (simp add: addLogHead_def)
        next
          case ok: None
          from refused obtain e5 where
            "tls_Marshal l (ByPointer \<lparr>SourceURL = bytes_of (req_SourceURL req1),
               HeadData = req_HeadData req1, Signature = req_Signature req1\<rparr>) = Inl e5"
            by blast
          with Inr req1 Some ok show ?thesis by (simp add: addLogHead_def)
        qed
      qed
    qed
  qed
  have 3: "\<exists>e. tls_Marshal l (ByPointer \<lparr>SourceURL = bytes_of (req_SourceURL req),
                       HeadData = req_HeadData req, Signature = req_Signature req\<rparr>) = Inl e
                \<and> addLogHead l c r s =
                    (Returns StatusBadRequest
                       (Some (Errorf ''failed to create hub leaf: %v'' [ArgErr e])), s)"
    if "Body r = Inr bd \<and> json_Unmarshal l bd = Inr req
        \<and> cryptoMap c (req_SourceURL req) = Some ci
        \<and> Verify l (pubKey ci) (hasher ci) (req_HeadData req) (req_Signature req) = None"
    for bd req ci
  proof -
    from refused obtain e where
      e: "tls_Marshal l (ByPointer \<lparr>SourceURL = bytes_of (req_SourceURL req),
               HeadData = req_HeadData req, Signature = req_Signature req\<rparr>) = Inl e"
      by blast
    with that have "addLogHead l c r s =
        (Returns StatusBadRequest
           (Some (Errorf ''failed to create hub leaf: %v'' [ArgErr e])), s)"
      by (simp add: addLogHead_def)
    with e show ?thesis by blast
  qed
  from 1 2 3 show ?thesis by blast
qed

theorem addLogHead_encodes_no_leaf_witness:
  "refuses_pointers demo_lib
 \<and> Verify demo_lib [1] 5 [42] [1] = None
 \<and> addLogHead demo_lib log_b_hub (post_request [1, 42]) demo_state =
     (Returns 400
        (Some (Errorf ''failed to create hub leaf: %v''
                 [ArgErr (LibErr ''tls: unsupported type'')])),
      demo_state)"
proof -
  have r: "refuses_pointers demo_lib"
    by (simp add: refuses_pointers_def demo_lib_def)
  have v: "Verify demo_lib [1] 5 [42] [1] = None"
    by (simp add: demo_lib_def)
  have p: "Body (post_request [1, 42]) = Inr [1, 42]
      \<and> json_Unmarshal demo_lib [1, 42]
          = Inr \<lparr>req_SourceURL = ''log-b'', req_HeadData = [42], req_Signature = [1]\<rparr>
      \<and> cryptoMap log_b_hub
          (req_SourceURL \<lparr>req_SourceURL = ''log-b'', req_HeadData = [42], req_Signature = [1]\<rparr>)
          = Some \<lparr>pubKeyData = [1], pubKey = [1], hasher = 5\<rparr>
      \<and> Verify demo_lib (pubKey \<lparr>pubKeyData = [1], pubKey = [1], hasher = 5\<rparr>)
          (hasher \<lparr>pubKeyData = [1], pubKey = [1], hasher = 5\<rparr>)
          (req_HeadData \<lparr>req_SourceURL = ''log-b'', req_HeadData = [42], req_Signature = [1]\<rparr>)
          (req_Signature \<lparr>req_SourceURL = ''log-b'', req_HeadData = [42], req_Signature = [1]\<rparr>)
          = None"
    by (simp add: post_request_def demo_lib_def demo_unmarshal_def log_b_hub_def demo_hub_def)
  from addLogHead_encodes_no_leaf [OF r, of log_b_hub "post_request [1, 42]" demo_state]
  have "\<forall>bd req ci.
          Body (post_request [1, 42]) = Inr bd \<and> json_Unmarshal demo_lib bd = Inr req
        \<and> cryptoMap log_b_hub (req_SourceURL req) = Some ci
        \<and> Verify demo_lib (pubKey ci) (hasher ci) (req_HeadData req) (req_Signature req) = None
        \<longrightarrow> (\<exists>e. tls_Marshal demo_lib (ByPointer \<lparr>SourceURL = bytes_of (req_SourceURL req),
                       HeadData = req_HeadData req, Signature = req_Signature req\<rparr>) = Inl e
                \<and> addLogHead demo_lib log_b_hub (post_request [1, 42]) demo_state =
                    (Returns StatusBadRequest
                       (Some (Errorf ''failed to create hub leaf: %v'' [ArgErr e])), demo_state))"
    by blast
  from this [rule_format, OF p]
  obtain e where
    e: "tls_Marshal demo_lib (ByPointer \<lparr>SourceURL = bytes_of ''log-b'',
          HeadData = [42], Signature = [1]\<rparr>) = Inl e"
    and a: "addLogHead demo_lib log_b_hub (post_request [1, 42]) demo_state =
        (Returns StatusBadRequest
           (Some (Errorf ''failed to create hub leaf: %v'' [ArgErr e])), demo_state)"
    by auto
  from e have "e = LibErr ''tls: unsupported type''"
    by (simp add: demo_lib_def)
  with a have "addLogHead demo_lib log_b_hub (post_request [1, 42]) demo_state =
     (Returns 400
        (Some (Errorf ''failed to create hub leaf: %v''
                 [ArgErr (LibErr ''tls: unsupported type'')])),
      demo_state)"
    by (simp add: http_status_defs)
  with r v show ?thesis by (intro conjI)
qed

end
